theory Spec2Isabelle
  imports Main "HOL-Library.AList"
begin

section \<open>The application factory of \<open>paralympics_app\<close>\<close>

text \<open>
  The module \<open>paralympics_app/__init__.py\<close> wires a Flask application: it mounts a Dash
  dashboard and wraps its views with \<open>login_required\<close>, initialises the extensions,
  creates the schema, loads two CSV files into the tables \<open>region\<close> and \<open>medals\<close>, and
  registers two blueprints. The module is embedded function by function. The calls it
  makes into pandas, Flask, Dash and the Flask extensions are embedded by what they do to
  the objects the module passes them; each such definition says which call it stands for.
\<close>

subsection \<open>Exceptions\<close>

text \<open>
  The module has no \<open>raise\<close> and no \<open>try\<close>: every exception is one a library call raises,
  and it propagates unchanged to the caller of \<open>create_app\<close>.
\<close>

datatype error =
    FileNotFoundError
  | PermissionError
  | ParserError
  | ValueError
  | KeyError
  | RuntimeError


subsection \<open>Data frames\<close>

text \<open>
  A cell is missing (\<open>NaN\<close>), a text read from the file, or an integer (the \<open>id\<close> column,
  which is a copy of the index). A data frame has its column labels, its index labels and
  its rows, each row aligned with the columns.
\<close>

datatype cell = NaN | Str string | Num int

record dataframe =
  df_columns :: "string list"
  df_index :: "nat list"
  df_rows :: "cell list list"

text \<open>
  A file of the bundled data directory, as \<open>pd.read_csv\<close> meets it: absent
  (no entry), present but not readable, text that the tokenizer rejects, or a header line
  and data lines, each a list of raw fields.
\<close>

datatype csv_file = Unreadable | Malformed | Csv "string list" "string list list"

type_synonym filesystem = "string \<rightharpoonup> csv_file"

text \<open>The strings \<open>read_csv\<close> takes for a missing value by default.\<close>

definition na_values :: "string list" where
  "na_values = ['''', ''#N/A'', ''#N/A N/A'', ''#NA'', ''-1.#IND'', ''-1.#QNAN'', ''-NaN'',
     ''-nan'', ''1.#IND'', ''1.#QNAN'', ''<NA>'', ''N/A'', ''NA'', ''NULL'', ''NaN'', ''None'',
     ''n/a'', ''nan'', ''null'']"

definition parse_field :: "string \<Rightarrow> cell" where
  "parse_field s = (if s \<in> set na_values then NaN else Str s)"

text \<open>The position of the first column of a name.\<close>

fun col_pos :: "string list \<Rightarrow> string \<Rightarrow> nat option" where
  "col_pos [] c = None"
| "col_pos (x # xs) c = (if x = c then Some 0 else map_option Suc (col_pos xs c))"

text \<open>A data line shorter than the header is padded with missing values.\<close>

definition field :: "string list \<Rightarrow> nat \<Rightarrow> cell" where
  "field l i = (if i < length l then parse_field (l ! i) else NaN)"

definition frame :: "string list \<Rightarrow> string list list \<Rightarrow> nat list \<Rightarrow> dataframe" where
  "frame header lines keep =
     \<lparr>df_columns = map (\<lambda>i. header ! i) keep,
      df_index = [0..<length lines],
      df_rows = map (\<lambda>l. map (field l) keep) lines\<rparr>"

text \<open>
  \<open>pd.read_csv(filename, usecols=...)\<close>. The columns come in the order of the file; with
  \<open>usecols\<close> only the named ones are kept, and a name that the header lacks is a
  \<open>ValueError\<close>. A data line with more fields than the header is a \<open>ParserError\<close>.
  The index is the default one, \<open>0..len-1\<close>. Numeric columns are kept as their text:
  the loaders only test cells for being missing and for equality. The reader renames
  a repeated header name (\<open>name.1\<close>, ...), so \<open>usecols\<close> selects the first column of that
  name; the new names themselves are not embedded.
\<close>

definition read_csv :: "filesystem \<Rightarrow> string \<Rightarrow> string list option \<Rightarrow> error + dataframe" where
  "read_csv fs filename usecols =
     (case fs filename of
        None \<Rightarrow> Inl FileNotFoundError
      | Some Unreadable \<Rightarrow> Inl PermissionError
      | Some Malformed \<Rightarrow> Inl ParserError
      | Some (Csv header lines) \<Rightarrow>
          if list_ex (\<lambda>l. length header < length l) lines then Inl ParserError
          else (case usecols of
                  None \<Rightarrow> Inr (frame header lines [0..<length header])
                | Some cs \<Rightarrow>
                    if list_ex (\<lambda>c. c \<notin> set header) cs then Inl ValueError
                    else Inr (frame header lines
                                (filter (\<lambda>i. header ! i \<in> set cs
                                            \<and> col_pos header (header ! i) = Some i)
                                        [0..<length header]))))"

text \<open>Boolean-mask selection \<open>df[mask]\<close>: the kept rows keep their index labels.\<close>

definition select_rows :: "bool list \<Rightarrow> dataframe \<Rightarrow> dataframe" where
  "select_rows bs df =
     df\<lparr>df_index := map snd (filter fst (zip bs (df_index df))),
        df_rows := map snd (filter fst (zip bs (df_rows df)))\<rparr>"

text \<open>\<open>df.dropna(axis=0, inplace=True)\<close>: drop every row that has a missing cell.\<close>

definition dropna :: "dataframe \<Rightarrow> dataframe" where
  "dropna df = select_rows (map (\<lambda>r. NaN \<notin> set r) (df_rows df)) df"

text \<open>
  \<open>duplicated(keep='first')\<close>: a key is a duplicate when it occurred in an earlier row.
\<close>

fun duplicated :: "'a list \<Rightarrow> 'a list \<Rightarrow> bool list" where
  "duplicated seen [] = []"
| "duplicated seen (k # ks) = (k \<in> set seen) # duplicated (k # seen) ks"

fun positions :: "string list \<Rightarrow> string list \<Rightarrow> error + nat list" where
  "positions cols [] = Inr []"
| "positions cols (c # cs) =
     (case col_pos cols c of
        None \<Rightarrow> Inl KeyError
      | Some i \<Rightarrow> (case positions cols cs of Inl e \<Rightarrow> Inl e | Inr ps \<Rightarrow> Inr (i # ps)))"

text \<open>
  \<open>df.drop_duplicates(subset=..., keep='first', inplace=True)\<close>: the key of a row is its
  cells in the subset columns; a subset column that the frame lacks is a \<open>KeyError\<close>.
\<close>

definition drop_duplicates :: "string list \<Rightarrow> dataframe \<Rightarrow> error + dataframe" where
  "drop_duplicates keys df =
     (case positions (df_columns df) keys of
        Inl e \<Rightarrow> Inl e
      | Inr ps \<Rightarrow>
          Inr (select_rows
                 (map Not (duplicated [] (map (\<lambda>r. map (\<lambda>i. r ! i) ps) (df_rows df)))) df))"

text \<open>\<open>df.reset_index(drop=True, inplace=True)\<close>: the index becomes \<open>0..len-1\<close>.\<close>

definition reset_index :: "dataframe \<Rightarrow> dataframe" where
  "reset_index df = df\<lparr>df_index := [0..<length (df_rows df)]\<rparr>"

text \<open>
  \<open>df[name] = values\<close>: an existing column is overwritten in place, a new one is appended.
\<close>

definition setitem :: "dataframe \<Rightarrow> string \<Rightarrow> cell list \<Rightarrow> dataframe" where
  "setitem df name vals =
     (case col_pos (df_columns df) name of
        None \<Rightarrow> df\<lparr>df_columns := df_columns df @ [name],
                   df_rows := map (\<lambda>(r, v). r @ [v]) (zip (df_rows df) vals)\<rparr>
      | Some i \<Rightarrow> df\<lparr>df_rows := map (\<lambda>(r, v). r[i := v]) (zip (df_rows df) vals)\<rparr>)"

text \<open>\<open>df.index\<close>, as the values assigned to a column.\<close>

definition index_values :: "dataframe \<Rightarrow> cell list" where
  "index_values df = map (\<lambda>i. Num (int i)) (df_index df)"

subsection \<open>The SQL database\<close>

record table =
  t_columns :: "string list"
  t_rows :: "cell list list"

type_synonym database = "string \<rightharpoonup> table"

datatype if_exists = Fail | Replace | Append

text \<open>
  \<open>df.to_sql(name=..., con=..., if_exists=..., index=...)\<close>. With \<open>index=False\<close> the index
  is not written. \<open>'replace'\<close> drops the table before the rows are inserted; \<open>'fail'\<close> is
  a \<open>ValueError\<close> when the table exists; \<open>'append'\<close> inserts after the rows present.
\<close>

definition to_sql :: "dataframe \<Rightarrow> string \<Rightarrow> database \<Rightarrow> if_exists \<Rightarrow> bool \<Rightarrow> error + database" where
  "to_sql df name con mode with_index =
     (let new = (if with_index
                 then \<lparr>t_columns = ''index'' # df_columns df,
                       t_rows = map (\<lambda>(i, r). Num (int i) # r) (zip (df_index df) (df_rows df))\<rparr>
                 else \<lparr>t_columns = df_columns df, t_rows = df_rows df\<rparr>)
      in case con name of
           None \<Rightarrow> Inr (con(name \<mapsto> new))
         | Some old \<Rightarrow>
             (case mode of
                Fail \<Rightarrow> Inl ValueError
              | Replace \<Rightarrow> Inr (con(name \<mapsto> new))
              | Append \<Rightarrow> Inr (con(name \<mapsto> old\<lparr>t_rows := t_rows old @ t_rows new\<rparr>))))"

subsection \<open>View functions and the login guard\<close>

text \<open>
  A view function is one a library or a blueprint registered, known by its \<open>__module__\<close>
  and \<open>__name__\<close>, or the wrapper \<open>login_required(f)\<close> of Flask-Login around a view
  function. The wrapper is built with \<open>functools.wraps\<close>, so it carries the module and
  name of the function it wraps.
\<close>

datatype view = View string string | Login_required view

fun qualified_name :: "view \<Rightarrow> string" where
  "qualified_name (View m n) = m @ ''.'' @ n"
| "qualified_name (Login_required f) = qualified_name f"

record LoginManager =
  login_view :: "string option"

datatype response = Returned string | Redirect string | Abort nat

text \<open>
  \<open>LoginManager.unauthorized()\<close>: without a login view the request is aborted with 401,
  with one it is redirected to that view.
\<close>

definition unauthorized :: "LoginManager \<Rightarrow> response" where
  "unauthorized lm = (case login_view lm of None \<Rightarrow> Abort 401 | Some v \<Rightarrow> Redirect v)"

text \<open>
  Calling a view function for a request, of which the guard reads one thing: whether
  the current user is authenticated. A registered function answers with its own response;
  the wrapper calls the wrapped function for an authenticated user and answers
  \<open>unauthorized()\<close> otherwise. The login manager is the one of the time of the request.
\<close>

fun call_view :: "LoginManager \<Rightarrow> bool \<Rightarrow> view \<Rightarrow> response" where
  "call_view lm is_authenticated (View m n) = Returned (m @ ''.'' @ n)"
| "call_view lm is_authenticated (Login_required f) =
     (if is_authenticated then call_view lm is_authenticated f else unauthorized lm)"

subsection \<open>Flask applications, blueprints and the Dash application\<close>

text \<open>
  Of a Flask application the module touches the configuration, the URL map (rule and
  endpoint name), the registry \<open>view_functions\<close> (a dict from endpoint name to view
  function, in insertion order), the registered blueprints and the extensions.
\<close>

record Flask =
  import_name :: string
  config :: "(string \<times> string) list"
  url_map :: "(string \<times> string) list"
  view_functions :: "(string \<times> view) list"
  blueprints :: "string list"
  extensions :: "string list"

record Blueprint =
  bp_name :: string
  bp_routes :: "(string \<times> string \<times> view) list"

text \<open>\<open>Flask(__name__)\<close>: a new application, with the route of its static folder.\<close>

definition Flask_new :: "string \<Rightarrow> Flask" where
  "Flask_new name =
     \<lparr>import_name = name, config = [],
      url_map = [(''/static/<path:filename>'', ''static'')],
      view_functions = [(''static'', View ''flask.app'' ''send_static_file'')],
      blueprints = [], extensions = []\<rparr>"

text \<open>\<open>app.add_url_rule(rule, endpoint=..., view_func=...)\<close>.\<close>

definition add_url_rule :: "Flask \<Rightarrow> string \<Rightarrow> string \<Rightarrow> view \<Rightarrow> Flask" where
  "add_url_rule app rule endpoint f =
     app\<lparr>url_map := url_map app @ [(rule, endpoint)],
         view_functions := AList.update endpoint f (view_functions app)\<rparr>"

text \<open>
  \<open>app.register_blueprint(bp)\<close>: each route of the blueprint is added under the endpoint
  name \<open>bp.name + '.' + endpoint\<close>.
\<close>

definition register_blueprint :: "Flask \<Rightarrow> Blueprint \<Rightarrow> Flask" where
  "register_blueprint app bp =
     (fold (\<lambda>(rule, endpoint, f) a. add_url_rule a rule (bp_name bp @ ''.'' @ endpoint) f)
           (bp_routes bp) app)
       \<lparr>blueprints := blueprints app @ [bp_name bp]\<rparr>"

record Dash =
  server :: Flask
  routes_pathname_prefix :: string
  title :: string
  layout :: "string option"
  callback_map :: "string list"

text \<open>
  The routes \<open>Dash._setup_routes\<close> adds through \<open>Dash._add_url(name, view_func)\<close>, which
  registers the rule \<open>routes_pathname_prefix + name\<close> under an endpoint of the same name.
\<close>

definition dash_routes :: "(string \<times> view) list" where
  "dash_routes =
     [(''_dash-component-suites/<string:package_name>/<path:fingerprint>'',
         View ''dash.dash'' ''serve_component_suites''),
      (''_dash-layout'', View ''dash.dash'' ''serve_layout''),
      (''_dash-dependencies'', View ''dash.dash'' ''dependencies''),
      (''_dash-update-component'', View ''dash.dash'' ''dispatch''),
      (''_reload-hash'', View ''dash.dash'' ''serve_reload_hash''),
      (''_favicon.ico'', View ''dash.dash'' ''_serve_default_favicon''),
      ([], View ''dash.dash'' ''index''),
      (''<path:path>'', View ''dash.dash'' ''index'')]"

definition add_url :: "string \<Rightarrow> string \<times> view \<Rightarrow> Flask \<Rightarrow> Flask" where
  "add_url prefix nf app = add_url_rule app (prefix @ fst nf) (prefix @ fst nf) (snd nf)"

text \<open>
  The blueprint Dash registers for its assets folder: its name is the prefix with
  \<open>/\<close> and \<open>.\<close> replaced by \<open>_\<close>, followed by \<open>dash_assets\<close>; its one route serves the
  static files under \<open>routes_pathname_prefix + 'assets'\<close>.
\<close>

definition assets_blueprint :: "string \<Rightarrow> Blueprint" where
  "assets_blueprint prefix =
     \<lparr>bp_name = map (\<lambda>c. if c = CHR ''/'' \<or> c = CHR ''.'' then CHR ''_'' else c) prefix
                  @ ''dash_assets'',
      bp_routes = [(prefix @ ''assets/<path:filename>'', ''static'',
                    View ''flask.blueprints'' ''send_static_file'')]\<rparr>"

text \<open>
  \<open>dash.Dash(__name__, server=app, url_base_pathname=...)\<close>: the assets blueprint and the
  Dash routes are registered on the server, which the Dash application then refers to.
\<close>

definition Dash_new :: "Flask \<Rightarrow> string \<Rightarrow> Dash" where
  "Dash_new app url_base_pathname =
     \<lparr>server = fold (add_url url_base_pathname) dash_routes
                 (register_blueprint app (assets_blueprint url_base_pathname)),
      routes_pathname_prefix = url_base_pathname,
      title = ''Dash'', layout = None, callback_map = []\<rparr>"

text \<open>\<open>s.startswith(p)\<close>.\<close>

definition startswith :: "string \<Rightarrow> string \<Rightarrow> bool" where
  "startswith s p = (take (length p) s = p)"

subsection \<open>The process state\<close>

text \<open>
  The module's globals (\<open>csrf\<close>, \<open>db\<close>, \<open>login_manager\<close>, \<open>photos\<close>), the stack of pushed
  application contexts, and what is outside the process: the files and the SQL databases,
  one per database URI. The trace records the calls the module makes, in the order it
  makes them.
\<close>

datatype event =
    Flask_created
  | Config_loaded
  | Dash_created string
  | Dash_title_set
  | Dash_layout_set
  | Dash_callbacks_registered
  | View_protected string
  | Csrf_init
  | Db_init
  | Login_view_set string
  | Login_init
  | Uploads_configured
  | Context_pushed
  | Context_popped
  | Models_imported
  | Schema_created
  | Csv_read string
  | Table_written string string
  | Blueprint_registered string

record CSRFProtect =
  exempt_views :: "string set"

record SQLAlchemy =
  metadata :: "(string \<times> string list) list"

record UploadSet =
  set_name :: string
  set_extensions :: "string list"

record world =
  files :: filesystem
  databases :: "string \<Rightarrow> database"
  csrf :: CSRFProtect
  db :: SQLAlchemy
  login_manager :: LoginManager
  photos :: UploadSet
  app_ctx :: "Flask list"
  trace :: "event list"

definition emit :: "event \<Rightarrow> world \<Rightarrow> world" where
  "emit e w = w\<lparr>trace := trace w @ [e]\<rparr>"

text \<open>
  The modules of the package that are imported by the factory:
  \<open>models\<close> (the tables its classes declare on \<open>db\<close>), \<open>main.routes\<close> and \<open>auth.routes\<close>
  (a blueprint each), and \<open>paralympic_dash_app\<close> (the layout and the callbacks
  \<open>register_callbacks\<close> adds).
\<close>

record package =
  models :: "(string \<times> string list) list"
  main_bp :: Blueprint
  auth_bp :: Blueprint
  dash_layout :: string
  dash_callbacks :: "string list"

text \<open>Lines 13 to 17: the state after the module is imported.\<close>

definition CSRFProtect_new :: CSRFProtect where
  "CSRFProtect_new = \<lparr>exempt_views = {}\<rparr>"

definition IMAGES :: "string list" where
  "IMAGES = [''jpg'', ''jpe'', ''jpeg'', ''png'', ''gif'', ''svg'', ''bmp'']"

definition module_import :: "filesystem \<Rightarrow> (string \<Rightarrow> database) \<Rightarrow> world" where
  "module_import fs dbs =
     (let csrf0 = CSRFProtect_new;
          csrf1 = csrf0\<lparr>exempt_views := insert ''dash.dash.dispatch'' (exempt_views csrf0)\<rparr>
      in \<lparr>files = fs, databases = dbs,
          csrf = csrf1,
          db = \<lparr>metadata = []\<rparr>,
          login_manager = \<lparr>login_view = None\<rparr>,
          photos = \<lparr>set_name = ''photos'', set_extensions = IMAGES\<rparr>,
          app_ctx = [], trace = []\<rparr>)"

text \<open>
  \<open>CSRFProtect.protect\<close> skips the check for a view whose \<open>__module__ + '.' + __name__\<close>
  is in the set of exempt views.
\<close>

definition csrf_exempt :: "CSRFProtect \<Rightarrow> view \<Rightarrow> bool" where
  "csrf_exempt c f = (qualified_name f \<in> exempt_views c)"

subsection \<open>The extension calls of the factory\<close>

text \<open>\<open>app.config.from_object(obj)\<close>: the keys of the object override those present.\<close>

definition from_object :: "Flask \<Rightarrow> (string \<times> string) list \<Rightarrow> Flask" where
  "from_object app obj = app\<lparr>config := obj @ config app\<rparr>"

text \<open>\<open>csrf.init_app(app)\<close> and \<open>login_manager.init_app(app)\<close> register on the application.\<close>

definition csrf_init_app :: "Flask \<Rightarrow> Flask" where
  "csrf_init_app app = app\<lparr>extensions := extensions app @ [''csrf'']\<rparr>"

definition login_init_app :: "Flask \<Rightarrow> Flask" where
  "login_init_app app = app\<lparr>extensions := extensions app @ [''login_manager'']\<rparr>"

text \<open>
  \<open>db.init_app(app)\<close>: the database URI defaults to an in-memory SQLite database, and the
  extension is registered on the application.
\<close>

definition db_init_app :: "Flask \<Rightarrow> Flask" where
  "db_init_app app =
     app\<lparr>config := (case map_of (config app) ''SQLALCHEMY_DATABASE_URI'' of
                       None \<Rightarrow> config app @ [(''SQLALCHEMY_DATABASE_URI'', ''sqlite:///:memory:'')]
                     | Some u \<Rightarrow> config app),
         extensions := extensions app @ [''sqlalchemy'']\<rparr>"

text \<open>
  \<open>configure_uploads(app, upload_sets=[photos])\<close>: a set without a configured destination
  is a \<open>RuntimeError\<close>; a set without a configured URL is served by the blueprint
  \<open>_uploads\<close>, registered once.
\<close>

definition uploads_mod :: Blueprint where
  "uploads_mod = \<lparr>bp_name = ''_uploads'',
     bp_routes = [(''/_uploads/<setname>/<path:filename>'', ''uploaded_file'',
                   View ''flask_uploads'' ''uploaded_file'')]\<rparr>"

definition upper :: "string \<Rightarrow> string" where
  "upper s = map (\<lambda>c. if (97::nat) \<le> of_char c \<and> of_char c \<le> (122::nat)
                        then char_of (of_char c - (32::nat)) else c) s"

definition configure_uploads :: "Flask \<Rightarrow> UploadSet list \<Rightarrow> error + Flask" where
  "configure_uploads app upload_sets =
     (let has = (\<lambda>k. map_of (config app) k \<noteq> None);
          no_dest = (\<lambda>s. \<not> has (''UPLOADED_'' @ upper (set_name s) @ ''_DEST'')
                          \<and> \<not> has ''UPLOADS_DEFAULT_DEST'');
          no_url = (\<lambda>s. \<not> has (''UPLOADED_'' @ upper (set_name s) @ ''_URL'')
                         \<and> \<not> has ''UPLOADS_DEFAULT_URL'')
      in if list_ex no_dest upload_sets then Inl RuntimeError
         else (let app1 = app\<lparr>extensions := extensions app @ [''uploads'']\<rparr>
               in if ''_uploads'' \<notin> set (blueprints app1) \<and> list_ex no_url upload_sets
                  then Inr (register_blueprint app1 uploads_mod)
                  else Inr app1))"

text \<open>
  \<open>with app.app_context(): body\<close>: the context is pushed, the body runs, and the context
  is popped when the body returns and when it raises.
\<close>

definition with_app_context ::
  "Flask \<Rightarrow> (world \<Rightarrow> (error + 'a) \<times> world) \<Rightarrow> world \<Rightarrow> (error + 'a) \<times> world" where
  "with_app_context app body w =
     (case body (emit Context_pushed (w\<lparr>app_ctx := app # app_ctx w\<rparr>)) of
        (r, w1) \<Rightarrow> (r, emit Context_popped (w1\<lparr>app_ctx := tl (app_ctx w1)\<rparr>)))"

text \<open>
  \<open>db.engine\<close>: the engine of the current application, which needs a pushed application
  context and an application that \<open>db.init_app\<close> was called on. The engine is known by
  its database URI.
\<close>

definition engine :: "world \<Rightarrow> error + string" where
  "engine w =
     (case app_ctx w of
        [] \<Rightarrow> Inl RuntimeError
      | app # _ \<Rightarrow>
          if ''sqlalchemy'' \<notin> set (extensions app) then Inl RuntimeError
          else (case map_of (config app) ''SQLALCHEMY_DATABASE_URI'' of
                  None \<Rightarrow> Inl RuntimeError
                | Some uri \<Rightarrow> Inr uri))"

text \<open>\<open>db.create_all()\<close>: every table of the metadata that is absent is created, empty.\<close>

definition create_table :: "string \<times> string list \<Rightarrow> database \<Rightarrow> database" where
  "create_table t d =
     (case d (fst t) of
        None \<Rightarrow> d(fst t \<mapsto> \<lparr>t_columns = snd t, t_rows = []\<rparr>)
      | Some old \<Rightarrow> d)"

definition create_all :: "world \<Rightarrow> (error + unit) \<times> world" where
  "create_all w =
     (case engine w of
        Inl e \<Rightarrow> (Inl e, w)
      | Inr uri \<Rightarrow>
          (Inr (), emit Schema_created
             (w\<lparr>databases := (databases w)(uri := fold create_table (metadata (db w))
                                                     (databases w uri))\<rparr>)))"

text \<open>
  \<open>from paralympics_app.models import ...\<close>: the model classes declare their tables on the
  metadata of the global \<open>db\<close>.
\<close>

definition import_models :: "package \<Rightarrow> world \<Rightarrow> world" where
  "import_models pkg w = emit Models_imported (w\<lparr>db := (db w)\<lparr>metadata := models pkg\<rparr>\<rparr>)"

subsection \<open>The module \<open>paralympics_app/__init__.py\<close>\<close>

text \<open>\<open>Path(__file__).parent.joinpath(...)\<close>, with the package directory for the parent.\<close>

definition package_dir :: string where
  "package_dir = ''paralympics_app''"

definition joinpath :: "string \<Rightarrow> string list \<Rightarrow> string" where
  "joinpath p parts = fold (\<lambda>x acc. acc @ ''/'' @ x) parts p"

text \<open>
  \<open>add_noc_data(db_name)\<close>, lines 52 to 63. The parameter is not used: the connection
  is the engine of the global \<open>db\<close>.
\<close>

definition add_noc_data :: "'a \<Rightarrow> world \<Rightarrow> (error + unit) \<times> world" where
  "add_noc_data db_name w =
     (let filename = joinpath package_dir [''data'', ''noc_regions.csv''];
          w1 = emit (Csv_read filename) w
      in case read_csv (files w1) filename (Some [''region'']) of
           Inl e \<Rightarrow> (Inl e, w1)
         | Inr df0 \<Rightarrow>
             (let df1 = dropna df0
              in case drop_duplicates [''region''] df1 of
                   Inl e \<Rightarrow> (Inl e, w1)
                 | Inr df2 \<Rightarrow>
                     (let df3 = reset_index df2;
                          df4 = setitem df3 ''id'' (index_values df3)
                      in case engine w1 of
                           Inl e \<Rightarrow> (Inl e, w1)
                         | Inr uri \<Rightarrow>
                             (case to_sql df4 ''region'' (databases w1 uri) Replace False of
                                Inl e \<Rightarrow> (Inl e, w1)
                              | Inr d \<Rightarrow>
                                  (Inr (), emit (Table_written uri ''region'')
                                             (w1\<lparr>databases := (databases w1)(uri := d)\<rparr>))))))"

text \<open>\<open>add_medals_data(db_name)\<close>, lines 66 to 75.\<close>

definition add_medals_data :: "'a \<Rightarrow> world \<Rightarrow> (error + unit) \<times> world" where
  "add_medals_data db_name w =
     (let filename = joinpath package_dir [''data'', ''all_medals.csv''];
          w1 = emit (Csv_read filename) w
      in case read_csv (files w1) filename None of
           Inl e \<Rightarrow> (Inl e, w1)
         | Inr df0 \<Rightarrow>
             (let df1 = dropna df0;
                  df2 = setitem df1 ''id'' (index_values df1)
              in case engine w1 of
                   Inl e \<Rightarrow> (Inl e, w1)
                 | Inr uri \<Rightarrow>
                     (case to_sql df2 ''medals'' (databases w1 uri) Replace False of
                        Inl e \<Rightarrow> (Inl e, w1)
                      | Inr d \<Rightarrow>
                          (Inr (), emit (Table_written uri ''medals'')
                                     (w1\<lparr>databases := (databases w1)(uri := d)\<rparr>)))))"

text \<open>
  \<open>_protect_dash_views(dash_app)\<close>, lines 101 to 105. The loop runs over the keys of
  \<open>dash_app.server.view_functions\<close>, which are endpoint names, and rebinds each key that
  starts with the prefix to the wrapped view function. The server of the Dash
  application is the Flask application itself, so the rebinding is seen through both.
\<close>

fun protect_loop :: "string \<Rightarrow> string list \<Rightarrow> Flask \<Rightarrow> world \<Rightarrow> (error + Flask) \<times> world" where
  "protect_loop prefix [] srv w = (Inr srv, w)"
| "protect_loop prefix (view_func # rest) srv w =
     (if startswith view_func prefix then
        (case map_of (view_functions srv) view_func of
           None \<Rightarrow> (Inl KeyError, w)
         | Some f \<Rightarrow>
             protect_loop prefix rest
               (srv\<lparr>view_functions := AList.update view_func (Login_required f) (view_functions srv)\<rparr>)
               (emit (View_protected view_func) w))
      else protect_loop prefix rest srv w)"

definition protect_dash_views :: "Dash \<Rightarrow> world \<Rightarrow> (error + Dash) \<times> world" where
  "protect_dash_views dash_app w =
     (case protect_loop (routes_pathname_prefix dash_app)
             (map fst (view_functions (server dash_app))) (server dash_app) w of
        (Inl e, w1) \<Rightarrow> (Inl e, w1)
      | (Inr srv, w1) \<Rightarrow> (Inr (dash_app\<lparr>server := srv\<rparr>), w1))"

text \<open>
  \<open>register_dashapp(app)\<close>, lines 78 to 98. The function returns nothing and changes
  \<open>app\<close>; the embedding returns the changed application.
\<close>

definition register_callbacks :: "package \<Rightarrow> Dash \<Rightarrow> Dash" where
  "register_callbacks pkg dashapp =
     dashapp\<lparr>callback_map := callback_map dashapp @ dash_callbacks pkg\<rparr>"

definition register_dashapp :: "package \<Rightarrow> Flask \<Rightarrow> world \<Rightarrow> (error + Flask) \<times> world" where
  "register_dashapp pkg app w =
     (let dashapp = Dash_new app ''/dashboard/'';
          w1 = emit (Dash_created ''/dashboard/'') w
      in case with_app_context (server dashapp)
                (\<lambda>wa. (let d1 = dashapp\<lparr>title := ''Dashboard''\<rparr>;
                            wb = emit Dash_title_set wa;
                            d2 = d1\<lparr>layout := Some (dash_layout pkg)\<rparr>;
                            wc = emit Dash_layout_set wb;
                            d3 = register_callbacks pkg d2;
                            wd = emit Dash_callbacks_registered wc
                        in (Inr d3, wd))) w1 of
           (Inl e, w2) \<Rightarrow> (Inl e, w2)
         | (Inr d, w2) \<Rightarrow>
             (case protect_dash_views d w2 of
                (Inl e, w3) \<Rightarrow> (Inl e, w3)
              | (Inr d', w3) \<Rightarrow> (Inr (server d'), w3)))"

text \<open>
  \<open>create_app(config_class_name)\<close>, lines 20 to 49. The configuration object is given by
  its keys and values.
\<close>

definition create_app :: "package \<Rightarrow> (string \<times> string) list \<Rightarrow> world \<Rightarrow> (error + Flask) \<times> world" where
  "create_app pkg config_class_name w =
     (let app0 = Flask_new ''paralympics_app'';
          w0 = emit Flask_created w;
          app1 = from_object app0 config_class_name;
          w1 = emit Config_loaded w0
      in case register_dashapp pkg app1 w1 of
           (Inl e, w2) \<Rightarrow> (Inl e, w2)
         | (Inr app2, w2) \<Rightarrow>
             (let app3 = csrf_init_app app2;
                  w3 = emit Csrf_init w2;
                  app4 = db_init_app app3;
                  w4 = emit Db_init w3;
                  w5 = emit (Login_view_set ''auth.login'')
                         (w4\<lparr>login_manager := (login_manager w4)\<lparr>login_view := Some ''auth.login''\<rparr>\<rparr>);
                  app5 = login_init_app app4;
                  w6 = emit Login_init w5
              in case configure_uploads app5 [photos w6] of
                   Inl e \<Rightarrow> (Inl e, w6)
                 | Inr app6 \<Rightarrow>
                     (case with_app_context app6
                             (\<lambda>wa. (let wb = import_models pkg wa
                                     in case create_all wb of
                                          (Inl e, wc) \<Rightarrow> (Inl e, wc)
                                        | (Inr u, wc) \<Rightarrow>
                                            (case add_noc_data (db wc) wc of
                                               (Inl e, wd) \<Rightarrow> (Inl e, wd)
                                             | (Inr u', wd) \<Rightarrow> add_medals_data (db wd) wd)))
                             (emit Uploads_configured w6) of
                        (Inl e, w7) \<Rightarrow> (Inl e, w7)
                      | (Inr u, w7) \<Rightarrow>
                          (let app7 = register_blueprint app6 (main_bp pkg);
                               w8 = emit (Blueprint_registered (bp_name (main_bp pkg))) w7;
                               app8 = register_blueprint app7 (auth_bp pkg);
                               w9 = emit (Blueprint_registered (bp_name (auth_bp pkg))) w8
                           in (Inr app8, w9)))))"

subsection \<open>The vocabulary of the claims\<close>




text \<open>The rows of a source file as the reader parses them, one cell per header column.\<close>

definition source_rows :: "string list \<Rightarrow> string list list \<Rightarrow> cell list list" where
  "source_rows header lines = map (\<lambda>l. map (field l) [0..<length header]) lines"

definition fully_populated :: "cell list \<Rightarrow> bool" where
  "fully_populated r = (NaN \<notin> set r)"

text \<open>
  The state in which the factory runs the loaders, for given files and databases: the module
  is imported, and the application context of an application that \<open>db.init_app\<close> was
  called on is pushed.
\<close>

definition loader_state :: "filesystem \<Rightarrow> (string \<Rightarrow> database) \<Rightarrow> world" where
  "loader_state fs dbs =
     (module_import fs dbs)\<lparr>app_ctx := [db_init_app (Flask_new ''paralympics_app'')]\<rparr>"

text \<open>Two source files and a database with tables of an earlier run, for the examples.\<close>

definition example_files :: filesystem where
  "example_files =
     [joinpath package_dir [''data'', ''noc_regions.csv'']
        \<mapsto> Csv [''NOC'', ''region''] [[''GBR'', ''UK''], [''FRA'', ''FR'']],
      joinpath package_dir [''data'', ''all_medals.csv'']
        \<mapsto> Csv [''Country'', ''Gold''] [[''FR'', ''3'']]]"

definition earlier_run :: database where
  "earlier_run =
     [''region'' \<mapsto> \<lparr>t_columns = [''region'', ''id''],
                         t_rows = [[Str ''DE'', Num 0], [Str ''IT'', Num 1], [Str ''ES'', Num 2]]\<rparr>,
      ''medals'' \<mapsto> \<lparr>t_columns = [''Country'', ''Gold'', ''id''],
                         t_rows = [[Str ''DE'', Str ''9'', Num 0], [Str ''IT'', Str ''7'', Num 1]]\<rparr>]"

text \<open>
  The modules of a package with one route in each blueprint, a configuration, and the
  state right after the module is imported, for the examples.
\<close>

definition example_package :: package where
  "example_package =
     \<lparr>models = [(''user'', [''id'', ''email'']), (''region'', [''id'', ''region''])],
      main_bp = \<lparr>bp_name = ''main'',
                 bp_routes = [(''/'', ''index'', View ''paralympics_app.main.routes'' ''index'')]\<rparr>,
      auth_bp = \<lparr>bp_name = ''auth'',
                 bp_routes = [(''/login'', ''login'', View ''paralympics_app.auth.routes'' ''login'')]\<rparr>,
      dash_layout = ''layout'',
      dash_callbacks = [''medals-chart'']\<rparr>"

definition example_config :: "(string \<times> string) list" where
  "example_config =
     [(''SECRET_KEY'', ''dev''),
      (''SQLALCHEMY_DATABASE_URI'', ''sqlite:///paralympics.sqlite''),
      (''UPLOADED_PHOTOS_DEST'', ''static/img'')]"

definition imported :: world where
  "imported = module_import example_files (\<lambda>uri. Map.empty)"


text \<open>The database URI of a configuration, with the default of \<open>db.init_app\<close>.\<close>

definition database_uri :: "(string \<times> string) list \<Rightarrow> string" where
  "database_uri cfg =
     (case map_of cfg ''SQLALCHEMY_DATABASE_URI'' of
        None \<Rightarrow> ''sqlite:///:memory:''
      | Some uri \<Rightarrow> uri)"

text \<open>
  \<open>in_order es tr\<close>: the events \<open>es\<close> occur in the trace \<open>tr\<close>, in this order (possibly with
  other events between them).
\<close>

fun in_order :: "'a list \<Rightarrow> 'a list \<Rightarrow> bool" where
  "in_order [] tr = True"
| "in_order (e # es) [] = False"
| "in_order (e # es) (x # tr) = (if e = x then in_order es tr else in_order (e # es) tr)"

text \<open>The events one call of \<open>create_app\<close> adds to the trace.\<close>

definition run_of :: "package \<Rightarrow> (string \<times> string) list \<Rightarrow> world \<Rightarrow> event list" where
  "run_of pkg cfg w = drop (length (trace w)) (trace (snd (create_app pkg cfg w)))"


text \<open>
  The states the process can be in: the state right after the module is imported, and
  every state an operation of the module leaves, from such a state; between two operations
  the files and the databases may change under the process.
\<close>

inductive reachable :: "world \<Rightarrow> bool" where
  module_imported: "reachable (module_import fs dbs)"
| app_created: "reachable w \<Longrightarrow> reachable (snd (create_app pkg cfg w))"
| dashapp_registered: "reachable w \<Longrightarrow> reachable (snd (register_dashapp pkg app w))"
| dash_views_protected: "reachable w \<Longrightarrow> reachable (snd (protect_dash_views dash_app w))"
| noc_data_added: "reachable w \<Longrightarrow> reachable (snd (add_noc_data (db_name :: SQLAlchemy) w))"
| medals_data_added: "reachable w \<Longrightarrow> reachable (snd (add_medals_data (db_name :: SQLAlchemy) w))"
| environment: "reachable w \<Longrightarrow> reachable (w\<lparr>files := fs, databases := dbs\<rparr>)"

section \<open>Properties\<close>

subsection \<open>Lists, columns and first occurrences\<close>










subsection \<open>The data frame calls\<close>




lemma engine_emit [simp]: "engine (emit e w) = engine w"
  by (simp add: engine_def emit_def)

lemma files_emit [simp]: "files (emit e w) = files w"
  by (simp add: emit_def)

lemma databases_emit [simp]: "databases (emit e w) = databases w"
  by (simp add: emit_def)






lemma to_sql_replace:
  "to_sql df name con Replace False
     = Inr (con(name \<mapsto> \<lparr>t_columns = df_columns df, t_rows = df_rows df\<rparr>))"
  by (simp add: to_sql_def Let_def split: option.split)

subsection \<open>The loaders and their parameter\<close>

text \<open>
  C9. \<open>add_noc_data\<close> and \<open>add_medals_data\<close> ignore their argument \<open>db_name\<close>: whatever two
  values are passed, of whatever types, a call ends in the same result and the same state
  (files read, tables written and trace of calls included), since the path of the file
  is fixed and the connection is the engine of the global \<open>db\<close>.
\<close>

theorem db_name_ignored:
  "add_noc_data (a :: 'a) w = add_noc_data (b :: 'b) w
   \<and> add_medals_data a w = add_medals_data b w"
  by (simp add: add_noc_data_def add_medals_data_def)

subsection \<open>The table of regions\<close>



subsection \<open>The table of medals\<close>

text \<open>
  C2. \<open>add_medals_data\<close> drops the rows with a missing value and copies the index into
  \<open>id\<close> without resetting it first, unlike \<open>add_noc_data\<close>. A kept row keeps the position
  it had in the file: with the first of three rows dropped, the ids written are 1 and 2,
  where the claim has 0 and 1.
\<close>

theorem add_medals_data_ids_keep_gaps:
  "(let w = loader_state
              [joinpath package_dir [''data'', ''all_medals.csv'']
                 \<mapsto> Csv [''Country'', ''Gold''] [[''UK'', ''''], [''FR'', ''3''], [''DE'', ''5'']]]
              (\<lambda>uri. Map.empty)
    in fst (add_medals_data () w) = Inr ()
       \<and> databases (snd (add_medals_data () w)) ''sqlite:///:memory:'' ''medals''
           = Some \<lparr>t_columns = [''Country'', ''Gold'', ''id''],
                    t_rows = [[Str ''FR'', Str ''3'', Num 1], [Str ''DE'', Str ''5'', Num 2]]\<rparr>)"
  by code_simp

subsection \<open>Replacing the tables\<close>

lemma add_noc_data_table:
  assumes "fst (add_noc_data a w) = Inr ()" and "engine w = Inr uri"
  shows "\<exists>df0 df2. read_csv (files w) (joinpath package_dir [''data'', ''noc_regions.csv'']) (Some [''region'']) = Inr df0
           \<and> drop_duplicates [''region''] (dropna df0) = Inr df2
           \<and> databases (snd (add_noc_data a w)) uri ''region''
               = Some \<lparr>t_columns = df_columns (setitem (reset_index df2) ''id'' (index_values (reset_index df2))),
                        t_rows = df_rows (setitem (reset_index df2) ''id'' (index_values (reset_index df2)))\<rparr>"
  using assms unfolding add_noc_data_def Let_def
  by (auto split: sum.splits simp: to_sql_replace)

lemma add_medals_data_table:
  assumes "fst (add_medals_data a w) = Inr ()" and "engine w = Inr uri"
  shows "\<exists>df0. read_csv (files w) (joinpath package_dir [''data'', ''all_medals.csv'']) None = Inr df0
           \<and> databases (snd (add_medals_data a w)) uri ''medals''
               = Some \<lparr>t_columns = df_columns (setitem (dropna df0) ''id'' (index_values (dropna df0))),
                        t_rows = df_rows (setitem (dropna df0) ''id'' (index_values (dropna df0)))\<rparr>"
  using assms unfolding add_medals_data_def Let_def
  by (auto split: sum.splits simp: to_sql_replace)

text \<open>
  C4. The tables the loaders write depend on the source files only: two runs on the same
  files end with equal tables \<open>region\<close> and \<open>medals\<close>, whatever the databases held before
  and whatever else differs between the two states.
\<close>

theorem loaders_replace:
  assumes "files w1 = files w2"
    and "engine w1 = Inr u1" and "engine w2 = Inr u2"
    and "fst (add_noc_data a w1) = Inr ()" and "fst (add_noc_data b w2) = Inr ()"
    and "fst (add_medals_data a w1) = Inr ()" and "fst (add_medals_data b w2) = Inr ()"
  shows "databases (snd (add_noc_data a w1)) u1 ''region''
           = databases (snd (add_noc_data b w2)) u2 ''region''
         \<and> databases (snd (add_medals_data a w1)) u1 ''medals''
           = databases (snd (add_medals_data b w2)) u2 ''medals''"
proof
  from add_noc_data_table [OF assms(4) assms(2)] add_noc_data_table [OF assms(5) assms(3)] assms(1)
  show "databases (snd (add_noc_data a w1)) u1 ''region''
           = databases (snd (add_noc_data b w2)) u2 ''region''"
    by auto
  from add_medals_data_table [OF assms(6) assms(2)] add_medals_data_table [OF assms(7) assms(3)] assms(1)
  show "databases (snd (add_medals_data a w1)) u1 ''medals''
           = databases (snd (add_medals_data b w2)) u2 ''medals''"
    by auto
qed

theorem loaders_replace_witness:
  "(let w1 = loader_state example_files (\<lambda>uri. Map.empty);
        w2 = loader_state example_files (\<lambda>uri. earlier_run)
    in files w1 = files w2
       \<and> engine w1 = Inr ''sqlite:///:memory:'' \<and> engine w2 = Inr ''sqlite:///:memory:''
       \<and> fst (add_noc_data () w1) = Inr () \<and> fst (add_noc_data () w2) = Inr ()
       \<and> fst (add_medals_data () w1) = Inr () \<and> fst (add_medals_data () w2) = Inr ()
       \<and> databases w2 ''sqlite:///:memory:'' ''region'' \<noteq> None
       \<and> databases (snd (add_noc_data () w1)) ''sqlite:///:memory:'' ''region''
           = databases (snd (add_noc_data () w2)) ''sqlite:///:memory:'' ''region''
       \<and> databases (snd (add_medals_data () w1)) ''sqlite:///:memory:'' ''medals''
           = databases (snd (add_medals_data () w2)) ''sqlite:///:memory:'' ''medals'')"
proof -
  let ?w1 = "loader_state example_files (\<lambda>uri. Map.empty)"
  let ?w2 = "loader_state example_files (\<lambda>uri. earlier_run)"
  have f: "files ?w1 = files ?w2"
    by (simp add: loader_state_def module_import_def Let_def)
  have e1: "engine ?w1 = Inr ''sqlite:///:memory:''"
    by (simp add: engine_def loader_state_def module_import_def Let_def db_init_app_def Flask_new_def)
  have e2: "engine ?w2 = Inr ''sqlite:///:memory:''"
    by (simp add: engine_def loader_state_def module_import_def Let_def db_init_app_def Flask_new_def)
  have n1: "fst (add_noc_data () ?w1) = Inr ()" by code_simp
  have n2: "fst (add_noc_data () ?w2) = Inr ()" by code_simp
  have m1: "fst (add_medals_data () ?w1) = Inr ()" by code_simp
  have m2: "fst (add_medals_data () ?w2) = Inr ()" by code_simp
  have old: "databases ?w2 ''sqlite:///:memory:'' ''region'' \<noteq> None"
    by (simp add: loader_state_def module_import_def Let_def earlier_run_def)
  from loaders_replace [OF f e1 e2 n1 n2 m1 m2] f e1 e2 n1 n2 m1 m2 old
  show ?thesis unfolding Let_def by blast
qed

subsection \<open>The outcomes of the loaders\<close>

lemma add_noc_data_cases:
  "(\<exists>e. add_noc_data a w
          = (Inl e, emit (Csv_read (joinpath package_dir [''data'', ''noc_regions.csv''])) w))
   \<or> (\<exists>uri d. engine w = Inr uri
          \<and> add_noc_data a w
              = (Inr (), emit (Table_written uri ''region'')
                           ((emit (Csv_read (joinpath package_dir [''data'', ''noc_regions.csv''])) w)
                              \<lparr>databases := (databases w)(uri := d)\<rparr>)))"
  unfolding add_noc_data_def Let_def
  by (auto split: sum.splits simp: to_sql_replace)

lemma add_medals_data_cases:
  "(\<exists>e. add_medals_data a w
          = (Inl e, emit (Csv_read (joinpath package_dir [''data'', ''all_medals.csv''])) w))
   \<or> (\<exists>uri d. engine w = Inr uri
          \<and> add_medals_data a w
              = (Inr (), emit (Table_written uri ''medals'')
                           ((emit (Csv_read (joinpath package_dir [''data'', ''all_medals.csv''])) w)
                              \<lparr>databases := (databases w)(uri := d)\<rparr>)))"
  unfolding add_medals_data_def Let_def
  by (auto split: sum.splits simp: to_sql_replace)


lemma read_csv_errors:
  "read_csv fs f usecols = Inl e \<Longrightarrow> e \<in> {FileNotFoundError, PermissionError, ParserError, ValueError}"
  by (auto simp: read_csv_def split: option.splits csv_file.splits if_splits)




subsection \<open>The wrapping pass\<close>

lemma update_existing_keys:
  "k \<in> set (map fst al) \<Longrightarrow> map fst (AList.update k v al) = map fst al"
  by (simp add: update_keys)

lemma protect_loop_result:
  assumes "set ks \<subseteq> set (map fst (view_functions srv))"
  shows "\<exists>vf. protect_loop p ks srv w
               = (Inr (srv\<lparr>view_functions := vf\<rparr>),
                  w\<lparr>trace := trace w @ map View_protected (filter (\<lambda>k. startswith k p) ks)\<rparr>)
           \<and> map fst vf = map fst (view_functions srv)
           \<and> (\<forall>k. \<not> startswith k p \<longrightarrow> map_of vf k = map_of (view_functions srv) k)
           \<and> (distinct ks \<longrightarrow>
                (\<forall>k. map_of vf k = (if k \<in> set ks \<and> startswith k p
                                     then map_option Login_required (map_of (view_functions srv) k)
                                     else map_of (view_functions srv) k)))"
  using assms
proof (induction ks arbitrary: srv w)
  case Nil
  show ?case by (rule exI [of _ "view_functions srv"]) simp
next
  case (Cons k ks)
  show ?case
  proof (cases "startswith k p")
    case False
    from Cons.prems have sub: "set ks \<subseteq> set (map fst (view_functions srv))" by simp
    from Cons.IH [OF sub, of w] False show ?thesis by auto
  next
    case True
    from Cons.prems have kin: "k \<in> set (map fst (view_functions srv))" by simp
    then obtain f where f: "map_of (view_functions srv) k = Some f"
      by (cases "map_of (view_functions srv) k") (auto simp: map_of_eq_None_iff)
    let ?srv1 = "srv\<lparr>view_functions := AList.update k (Login_required f) (view_functions srv)\<rparr>"
    have keys1: "map fst (view_functions ?srv1) = map fst (view_functions srv)"
      using kin by (simp add: update_keys)
    with Cons.prems have sub: "set ks \<subseteq> set (map fst (view_functions ?srv1))" by simp
    from Cons.IH [OF sub, of "emit (View_protected k) w"] obtain vf where
      run: "protect_loop p ks ?srv1 (emit (View_protected k) w)
              = (Inr (?srv1\<lparr>view_functions := vf\<rparr>),
                 (emit (View_protected k) w)\<lparr>trace := trace (emit (View_protected k) w)
                     @ map View_protected (filter (\<lambda>k. startswith k p) ks)\<rparr>)"
      and keys: "map fst vf = map fst (view_functions ?srv1)"
      and frame: "\<forall>x. \<not> startswith x p \<longrightarrow> map_of vf x = map_of (view_functions ?srv1) x"
      and wrapped: "distinct ks \<longrightarrow>
                (\<forall>x. map_of vf x = (if x \<in> set ks \<and> startswith x p
                                     then map_option Login_required (map_of (view_functions ?srv1) x)
                                     else map_of (view_functions ?srv1) x))"
      by blast
    have m1: "map_of (view_functions ?srv1) = (map_of (view_functions srv))(k \<mapsto> Login_required f)"
      by (simp add: update_conv')
    show ?thesis
    proof (rule exI [of _ vf], intro conjI)
      show "protect_loop p (k # ks) srv w
              = (Inr (srv\<lparr>view_functions := vf\<rparr>),
                 w\<lparr>trace := trace w @ map View_protected (filter (\<lambda>k. startswith k p) (k # ks))\<rparr>)"
        using True f run by (simp add: emit_def)
      show "map fst vf = map fst (view_functions srv)" using keys keys1 by simp
      show "\<forall>x. \<not> startswith x p \<longrightarrow> map_of vf x = map_of (view_functions srv) x"
        using frame True by (auto simp: update_conv')
      show "distinct (k # ks) \<longrightarrow>
                (\<forall>x. map_of vf x = (if x \<in> set (k # ks) \<and> startswith x p
                                     then map_option Login_required (map_of (view_functions srv) x)
                                     else map_of (view_functions srv) x))"
        using wrapped True f by (auto simp: update_conv')
    qed
  qed
qed

lemma protect_dash_views_result:
  "\<exists>vf. protect_dash_views d w
          = (Inr (d\<lparr>server := (server d)\<lparr>view_functions := vf\<rparr>\<rparr>),
             w\<lparr>trace := trace w @ map View_protected
                   (filter (\<lambda>k. startswith k (routes_pathname_prefix d))
                           (map fst (view_functions (server d))))\<rparr>)
      \<and> map fst vf = map fst (view_functions (server d))
      \<and> (\<forall>k. \<not> startswith k (routes_pathname_prefix d)
               \<longrightarrow> map_of vf k = map_of (view_functions (server d)) k)
      \<and> (distinct (map fst (view_functions (server d))) \<longrightarrow>
           (\<forall>k. map_of vf k = (if startswith k (routes_pathname_prefix d)
                                then map_option Login_required (map_of (view_functions (server d)) k)
                                else map_of (view_functions (server d)) k)))"
proof -
  from protect_loop_result [of "map fst (view_functions (server d))" "server d"
         "routes_pathname_prefix d" w]
  obtain vf where
    run: "protect_loop (routes_pathname_prefix d) (map fst (view_functions (server d))) (server d) w
            = (Inr ((server d)\<lparr>view_functions := vf\<rparr>),
               w\<lparr>trace := trace w @ map View_protected
                   (filter (\<lambda>k. startswith k (routes_pathname_prefix d))
                           (map fst (view_functions (server d))))\<rparr>)"
    and keys: "map fst vf = map fst (view_functions (server d))"
    and frame: "\<forall>k. \<not> startswith k (routes_pathname_prefix d)
               \<longrightarrow> map_of vf k = map_of (view_functions (server d)) k"
    and wrapped: "distinct (map fst (view_functions (server d))) \<longrightarrow>
           (\<forall>k. map_of vf k = (if k \<in> set (map fst (view_functions (server d)))
                                   \<and> startswith k (routes_pathname_prefix d)
                                then map_option Login_required (map_of (view_functions (server d)) k)
                                else map_of (view_functions (server d)) k))"
    by blast
  have absent: "\<And>k. k \<notin> set (map fst (view_functions (server d)))
                  \<Longrightarrow> map_of (view_functions (server d)) k = None"
    by (simp add: map_of_eq_None_iff)
  show ?thesis
  proof (rule exI [of _ vf], intro conjI)
    show "protect_dash_views d w
          = (Inr (d\<lparr>server := (server d)\<lparr>view_functions := vf\<rparr>\<rparr>),
             w\<lparr>trace := trace w @ map View_protected
                   (filter (\<lambda>k. startswith k (routes_pathname_prefix d))
                           (map fst (view_functions (server d))))\<rparr>)"
      by (simp add: protect_dash_views_def run)
    show "map fst vf = map fst (view_functions (server d))" by (rule keys)
    show "\<forall>k. \<not> startswith k (routes_pathname_prefix d)
               \<longrightarrow> map_of vf k = map_of (view_functions (server d)) k" by (rule frame)
    show "distinct (map fst (view_functions (server d))) \<longrightarrow>
           (\<forall>k. map_of vf k = (if startswith k (routes_pathname_prefix d)
                                then map_option Login_required (map_of (view_functions (server d)) k)
                                else map_of (view_functions (server d)) k))"
    proof (intro impI allI)
      fix k assume dist: "distinct (map fst (view_functions (server d)))"
      show "map_of vf k = (if startswith k (routes_pathname_prefix d)
                                then map_option Login_required (map_of (view_functions (server d)) k)
                                else map_of (view_functions (server d)) k)"
      proof (cases "k \<in> set (map fst (view_functions (server d)))")
        case True
        with wrapped dist show ?thesis by simp
      next
        case False
        from wrapped dist have "map_of vf k = map_of (view_functions (server d)) k"
          using False by simp
        with absent [OF False] show ?thesis by simp
      qed
    qed
  qed
qed

lemma distinct_add_url_rule:
  "distinct (map fst (view_functions app))
     \<Longrightarrow> distinct (map fst (view_functions (add_url_rule app r e f)))"
  by (simp add: add_url_rule_def distinct_update)

lemma distinct_register_blueprint:
  "distinct (map fst (view_functions app))
     \<Longrightarrow> distinct (map fst (view_functions (register_blueprint app bp)))"
proof -
  have "\<And>a. distinct (map fst (view_functions a)) \<Longrightarrow>
          distinct (map fst (view_functions
            (fold (\<lambda>(rule, endpoint, f) a. add_url_rule a rule (bp_name bp @ ''.'' @ endpoint) f) rs a)))"
    for rs
    by (induction rs) (auto simp: distinct_add_url_rule)
  then show "distinct (map fst (view_functions app))
     \<Longrightarrow> distinct (map fst (view_functions (register_blueprint app bp)))"
    by (simp add: register_blueprint_def)
qed

lemma distinct_Dash_new:
  assumes "distinct (map fst (view_functions app))"
  shows "distinct (map fst (view_functions (server (Dash_new app p))))"
proof -
  have "\<And>a. distinct (map fst (view_functions a)) \<Longrightarrow>
          distinct (map fst (view_functions (fold (add_url p) rs a)))" for rs
    by (induction rs) (auto simp: add_url_def distinct_add_url_rule)
  with distinct_register_blueprint [OF assms] show ?thesis
    by (simp add: Dash_new_def)
qed

text \<open>
  C8. \<open>_protect_dash_views\<close> returns normally and changes nothing of the Dash application but
  the values of \<open>view_functions\<close>: the endpoint names and their order stay, and under every
  endpoint name that does not start with \<open>routes_pathname_prefix\<close> the registry holds the
  view function it held before.
\<close>

theorem protect_dash_views_frame:
  "\<exists>vf. fst (protect_dash_views dash_app w)
           = Inr (dash_app\<lparr>server := (server dash_app)\<lparr>view_functions := vf\<rparr>\<rparr>)
      \<and> map fst vf = map fst (view_functions (server dash_app))
      \<and> (\<forall>view_func. \<not> startswith view_func (routes_pathname_prefix dash_app)
               \<longrightarrow> map_of vf view_func = map_of (view_functions (server dash_app)) view_func)"
  using protect_dash_views_result [of dash_app w] by auto

theorem protect_dash_views_frame_witness:
  "\<not> startswith ''_dashboard_dash_assets.static'' ''/dashboard/''
   \<and> (\<exists>d'. fst (protect_dash_views (Dash_new (Flask_new ''paralympics_app'') ''/dashboard/'') imported)
               = Inr d'
         \<and> map_of (view_functions (server d')) ''_dashboard_dash_assets.static''
             = Some (View ''flask.blueprints'' ''send_static_file''))"
proof -
  let ?d = "Dash_new (Flask_new ''paralympics_app'') ''/dashboard/''"
  have p: "routes_pathname_prefix ?d = ''/dashboard/''" by (simp add: Dash_new_def)
  have ns: "\<not> startswith ''_dashboard_dash_assets.static'' ''/dashboard/''"
    by (simp add: startswith_def)
  have before: "map_of (view_functions (server ?d)) ''_dashboard_dash_assets.static''
                  = Some (View ''flask.blueprints'' ''send_static_file'')"
    by code_simp
  from protect_dash_views_frame [of ?d imported] obtain vf where
    r: "fst (protect_dash_views ?d imported)
           = Inr (?d\<lparr>server := (server ?d)\<lparr>view_functions := vf\<rparr>\<rparr>)"
    and f: "\<forall>view_func. \<not> startswith view_func (routes_pathname_prefix ?d)
               \<longrightarrow> map_of vf view_func = map_of (view_functions (server ?d)) view_func"
    by blast
  from f ns p have "map_of vf ''_dashboard_dash_assets.static''
                      = map_of (view_functions (server ?d)) ''_dashboard_dash_assets.static''"
    by simp
  with before r ns show ?thesis by simp
qed

subsection \<open>Mounting the dashboard\<close>

lemma register_dashapp_result:
  "\<exists>vf. register_dashapp pkg app w
          = (Inr ((server (Dash_new app ''/dashboard/''))\<lparr>view_functions := vf\<rparr>),
             w\<lparr>trace := trace w @ [Dash_created ''/dashboard/'', Context_pushed, Dash_title_set,
                                     Dash_layout_set, Dash_callbacks_registered, Context_popped]
                   @ map View_protected
                       (filter (\<lambda>k. startswith k ''/dashboard/'')
                           (map fst (view_functions (server (Dash_new app ''/dashboard/'')))))\<rparr>)
      \<and> map fst vf = map fst (view_functions (server (Dash_new app ''/dashboard/'')))
      \<and> (\<forall>k. \<not> startswith k ''/dashboard/''
               \<longrightarrow> map_of vf k = map_of (view_functions (server (Dash_new app ''/dashboard/''))) k)
      \<and> (distinct (map fst (view_functions app)) \<longrightarrow>
           (\<forall>k. map_of vf k
                 = (if startswith k ''/dashboard/''
                    then map_option Login_required
                           (map_of (view_functions (server (Dash_new app ''/dashboard/''))) k)
                    else map_of (view_functions (server (Dash_new app ''/dashboard/''))) k)))"
proof -
  let ?D = "Dash_new app ''/dashboard/''"
  let ?d = "?D\<lparr>title := ''Dashboard'', layout := Some (dash_layout pkg),
                 callback_map := callback_map ?D @ dash_callbacks pkg\<rparr>"
  let ?w = "w\<lparr>trace := trace w @ [Dash_created ''/dashboard/'', Context_pushed, Dash_title_set,
                                     Dash_layout_set, Dash_callbacks_registered, Context_popped]\<rparr>"
  have p: "routes_pathname_prefix ?d = ''/dashboard/''" by (simp add: Dash_new_def)
  have s: "server ?d = server ?D" by simp
  have unfold: "register_dashapp pkg app w
          = (case protect_dash_views ?d ?w of
               (Inl e, w3) \<Rightarrow> (Inl e, w3)
             | (Inr d', w3) \<Rightarrow> (Inr (server d'), w3))"
    by (simp add: register_dashapp_def with_app_context_def Let_def register_callbacks_def emit_def)
  from protect_dash_views_result [of ?d ?w] distinct_Dash_new [of app "''/dashboard/''"]
  show ?thesis
    unfolding unfold p s by (auto simp del: Dash.simps)
qed

text \<open>
  C3, as the code has it. The wrapping pass goes by endpoint name, not by path. After
  \<open>register_dashapp\<close>, every view function that the mounting registered under an endpoint
  name starting with \<open>/dashboard/\<close> is wrapped with \<open>login_required\<close>: called for a user who
  is not authenticated the wrapper answers \<open>unauthorized()\<close>, which is the redirect to the
  login view when one is set; called for an authenticated user it answers as the wrapped
  function does. The routes Dash adds through \<open>_add_url\<close> have their path for endpoint name,
  so these are wrapped.
\<close>

theorem dash_endpoints_protected:
  assumes "distinct (map fst (view_functions app))"
    and "map_of (view_functions (server (Dash_new app ''/dashboard/''))) view_func = Some f"
    and "startswith view_func ''/dashboard/''"
  shows "\<exists>app'. fst (register_dashapp pkg app w) = Inr app'
           \<and> map_of (view_functions app') view_func = Some (Login_required f)
           \<and> call_view lm False (Login_required f) = unauthorized lm
           \<and> (login_view lm = Some target
                \<longrightarrow> call_view lm False (Login_required f) = Redirect target)
           \<and> call_view lm True (Login_required f) = call_view lm True f"
proof -
  from register_dashapp_result [of pkg app w] assms(1) obtain vf where
    r: "fst (register_dashapp pkg app w)
          = Inr ((server (Dash_new app ''/dashboard/''))\<lparr>view_functions := vf\<rparr>)"
    and wrapped: "\<forall>k. map_of vf k
                 = (if startswith k ''/dashboard/''
                    then map_option Login_required
                           (map_of (view_functions (server (Dash_new app ''/dashboard/''))) k)
                    else map_of (view_functions (server (Dash_new app ''/dashboard/''))) k)"
    by auto
  from wrapped assms(2,3) have "map_of vf view_func = Some (Login_required f)" by simp
  with r show ?thesis by (simp add: unauthorized_def)
qed

theorem dash_endpoints_protected_witness:
  "distinct (map fst (view_functions (Flask_new ''paralympics_app'')))
   \<and> map_of (view_functions (server (Dash_new (Flask_new ''paralympics_app'') ''/dashboard/'')))
        ''/dashboard/_dash-update-component'' = Some (View ''dash.dash'' ''dispatch'')
   \<and> startswith ''/dashboard/_dash-update-component'' ''/dashboard/''
   \<and> (\<exists>app'. fst (register_dashapp example_package (Flask_new ''paralympics_app'') imported) = Inr app'
          \<and> map_of (view_functions app') ''/dashboard/_dash-update-component''
              = Some (Login_required (View ''dash.dash'' ''dispatch''))
          \<and> call_view \<lparr>login_view = Some ''auth.login''\<rparr> False
                (Login_required (View ''dash.dash'' ''dispatch'')) = Redirect ''auth.login''
          \<and> call_view \<lparr>login_view = Some ''auth.login''\<rparr> True
                (Login_required (View ''dash.dash'' ''dispatch'')) = Returned ''dash.dash.dispatch'')"
proof -
  have d: "distinct (map fst (view_functions (Flask_new ''paralympics_app'')))"
    by (simp add: Flask_new_def)
  have l: "map_of (view_functions (server (Dash_new (Flask_new ''paralympics_app'') ''/dashboard/'')))
        ''/dashboard/_dash-update-component'' = Some (View ''dash.dash'' ''dispatch'')"
    by code_simp
  have s: "startswith ''/dashboard/_dash-update-component'' ''/dashboard/''"
    by (simp add: startswith_def)
  from dash_endpoints_protected [OF d l s, of example_package imported
         "\<lparr>login_view = Some ''auth.login''\<rparr>" "''auth.login''"] d l s
  show ?thesis by simp
qed

text \<open>
  C3, as stated, fails on the route of the assets blueprint: its path
  \<open>/dashboard/assets/<path:filename>\<close> starts with the prefix, its endpoint name
  \<open>_dashboard_dash_assets.static\<close> does not, and its view function is left unwrapped, so a
  request without an authenticated user is served the file.
\<close>

theorem assets_route_not_protected:
  "(case fst (register_dashapp example_package (Flask_new ''paralympics_app'') imported) of
      Inl e \<Rightarrow> False
    | Inr app' \<Rightarrow>
        (''/dashboard/assets/<path:filename>'', ''_dashboard_dash_assets.static'') \<in> set (url_map app')
        \<and> startswith ''/dashboard/assets/<path:filename>'' ''/dashboard/''
        \<and> map_of (view_functions app') ''_dashboard_dash_assets.static''
            = Some (View ''flask.blueprints'' ''send_static_file'')
        \<and> call_view \<lparr>login_view = Some ''auth.login''\<rparr> False
              (View ''flask.blueprints'' ''send_static_file'')
            = Returned ''flask.blueprints.send_static_file'')"
  by code_simp

subsection \<open>What the calls leave unchanged\<close>

lemma add_noc_data_frame:
  assumes "add_noc_data a w = (r, w')"
  shows "files w' = files w \<and> csrf w' = csrf w \<and> db w' = db w
         \<and> login_manager w' = login_manager w \<and> photos w' = photos w \<and> app_ctx w' = app_ctx w"
  using add_noc_data_cases [of a w] assms by (auto simp: emit_def)

lemma add_medals_data_frame:
  assumes "add_medals_data a w = (r, w')"
  shows "files w' = files w \<and> csrf w' = csrf w \<and> db w' = db w
         \<and> login_manager w' = login_manager w \<and> photos w' = photos w \<and> app_ctx w' = app_ctx w"
  using add_medals_data_cases [of a w] assms by (auto simp: emit_def)

lemma register_dashapp_frame:
  assumes "register_dashapp pkg app w = (r, w')"
  shows "files w' = files w \<and> csrf w' = csrf w \<and> db w' = db w \<and> databases w' = databases w
         \<and> login_manager w' = login_manager w \<and> photos w' = photos w \<and> app_ctx w' = app_ctx w"
  using register_dashapp_result [of pkg app w] assms by auto

lemma create_all_frame:
  assumes "create_all w = (r, w')"
  shows "files w' = files w \<and> csrf w' = csrf w \<and> db w' = db w
         \<and> login_manager w' = login_manager w \<and> photos w' = photos w \<and> app_ctx w' = app_ctx w"
  using assms by (auto simp: create_all_def emit_def split: sum.splits)

lemma create_app_csrf: "csrf (snd (create_app pkg cfg w)) = csrf w"
  unfolding create_app_def Let_def with_app_context_def import_models_def
  by (auto simp: emit_def split: prod.splits sum.splits
           dest!: register_dashapp_frame create_all_frame add_noc_data_frame add_medals_data_frame)

subsection \<open>The application the factory builds\<close>

lemma add_url_rule_fields [simp]:
  "config (add_url_rule app r e f) = config app"
  "extensions (add_url_rule app r e f) = extensions app"
  "blueprints (add_url_rule app r e f) = blueprints app"
  by (simp_all add: add_url_rule_def)

lemma fold_add_url_rule_fields:
  "config (fold (\<lambda>(rule, endpoint, f) a. add_url_rule a rule (g endpoint) f) rs app) = config app
   \<and> extensions (fold (\<lambda>(rule, endpoint, f) a. add_url_rule a rule (g endpoint) f) rs app) = extensions app"
  by (induction rs arbitrary: app) auto

lemma register_blueprint_fields [simp]:
  "config (register_blueprint app bp) = config app"
  "extensions (register_blueprint app bp) = extensions app"
  using fold_add_url_rule_fields [of "\<lambda>e. bp_name bp @ ''.'' @ e" "bp_routes bp" app]
  by (simp_all add: register_blueprint_def)

lemma fold_add_url_fields:
  "config (fold (add_url p) rs app) = config app
   \<and> extensions (fold (add_url p) rs app) = extensions app"
  by (induction rs arbitrary: app) (auto simp: add_url_def)

lemma Dash_new_fields [simp]:
  "config (server (Dash_new app p)) = config app"
  "extensions (server (Dash_new app p)) = extensions app"
  by (simp_all add: Dash_new_def fold_add_url_fields)

lemma map_of_add_url_rule:
  "e \<noteq> k \<Longrightarrow> map_of (view_functions (add_url_rule app r e f)) k = map_of (view_functions app) k"
  by (simp add: add_url_rule_def update_conv')

lemma map_of_register_blueprint:
  assumes "CHR ''.'' \<notin> set k"
  shows "map_of (view_functions (register_blueprint app bp)) k = map_of (view_functions app) k"
proof -
  have ne: "\<And>e. bp_name bp @ CHR ''.'' # e \<noteq> k" using assms by auto
  have "\<And>a. map_of (view_functions
            (fold (\<lambda>(rule, endpoint, f) a. add_url_rule a rule (bp_name bp @ ''.'' @ endpoint) f) rs a)) k
          = map_of (view_functions a) k" for rs
    by (induction rs) (auto simp: map_of_add_url_rule ne)
  then show ?thesis by (simp add: register_blueprint_def)
qed

lemma configure_uploads_Inr:
  assumes "configure_uploads app sets = Inr app6"
  shows "config app6 = config app"
    and "extensions app6 = extensions app @ [''uploads'']"
    and "CHR ''.'' \<notin> set k \<Longrightarrow> map_of (view_functions app6) k = map_of (view_functions app) k"
  using assms
  by (auto simp: configure_uploads_def Let_def map_of_register_blueprint split: if_splits)

lemma db_init_app_uri:
  "map_of (config (db_init_app app)) ''SQLALCHEMY_DATABASE_URI'' = Some (database_uri (config app))"
  by (auto simp: db_init_app_def database_uri_def map_add_def split: option.splits)

lemma engine_of:
  assumes "app_ctx w = app # rest" and "''sqlalchemy'' \<in> set (extensions app)"
    and "map_of (config app) ''SQLALCHEMY_DATABASE_URI'' = Some uri"
  shows "engine w = Inr uri"
  using assms by (simp add: engine_def)

lemma database_uri_from_object [simp]:
  "database_uri (config (from_object (Flask_new n) cfg)) = database_uri cfg"
  by (simp add: from_object_def Flask_new_def database_uri_def split: option.splits)

lemma dash_keys:
  "map fst (view_functions (server (Dash_new (from_object (Flask_new n) cfg) ''/dashboard/'')))
     = ''static'' # ''_dashboard_dash_assets.static''
         # map (\<lambda>nf. ''/dashboard/'' @ fst nf) dash_routes"
  by (simp add: Dash_new_def from_object_def Flask_new_def register_blueprint_def
        assets_blueprint_def add_url_def add_url_rule_def dash_routes_def)

lemma dash_protected_keys:
  "filter (\<lambda>k. startswith k ''/dashboard/'')
      (map fst (view_functions (server (Dash_new (from_object (Flask_new n) cfg) ''/dashboard/''))))
     = map (\<lambda>nf. ''/dashboard/'' @ fst nf) dash_routes"
  unfolding dash_keys by (simp add: startswith_def dash_routes_def)

subsection \<open>A successful run of the factory\<close>

lemma engine_cong: "app_ctx w' = app_ctx w \<Longrightarrow> engine w' = engine w"
  by (simp add: engine_def)

lemma add_noc_data_Inr:
  assumes "add_noc_data a w = (Inr u, w')" and "engine w = Inr uri"
  shows "trace w' = trace w @ [Csv_read (joinpath package_dir [''data'', ''noc_regions.csv'']),
                               Table_written uri ''region'']"
  using add_noc_data_cases [of a w] assms by (auto simp: emit_def)

lemma add_medals_data_Inr:
  assumes "add_medals_data a w = (Inr u, w')" and "engine w = Inr uri"
  shows "trace w' = trace w @ [Csv_read (joinpath package_dir [''data'', ''all_medals.csv'']),
                               Table_written uri ''medals'']"
  using add_medals_data_cases [of a w] assms by (auto simp: emit_def)

lemma create_all_Inr:
  assumes "engine w = Inr uri"
  shows "\<exists>w'. create_all w = (Inr (), w') \<and> trace w' = trace w @ [Schema_created]"
  using assms by (simp add: create_all_def emit_def)

lemma create_app_Inr:
  assumes ok: "fst (create_app pkg cfg w) = Inr app"
  shows "\<exists>vf app6.
      (\<forall>k. map_of vf k
            = (if startswith k ''/dashboard/''
               then map_option Login_required
                      (map_of (view_functions (server (Dash_new (from_object (Flask_new ''paralympics_app'') cfg) ''/dashboard/''))) k)
               else map_of (view_functions (server (Dash_new (from_object (Flask_new ''paralympics_app'') cfg) ''/dashboard/''))) k))
      \<and> configure_uploads
           (login_init_app (db_init_app (csrf_init_app
              ((server (Dash_new (from_object (Flask_new ''paralympics_app'') cfg) ''/dashboard/''))
                 \<lparr>view_functions := vf\<rparr>))))
           [photos w] = Inr app6
      \<and> app = register_blueprint (register_blueprint app6 (main_bp pkg)) (auth_bp pkg)
      \<and> trace (snd (create_app pkg cfg w))
          = trace w
            @ [Flask_created, Config_loaded,
               Dash_created ''/dashboard/'', Context_pushed, Dash_title_set, Dash_layout_set,
               Dash_callbacks_registered, Context_popped]
            @ map View_protected (map (\<lambda>nf. ''/dashboard/'' @ fst nf) dash_routes)
            @ [Csrf_init, Db_init, Login_view_set ''auth.login'', Login_init, Uploads_configured,
               Context_pushed, Models_imported, Schema_created,
               Csv_read (joinpath package_dir [''data'', ''noc_regions.csv'']),
               Table_written (database_uri cfg) ''region'',
               Csv_read (joinpath package_dir [''data'', ''all_medals.csv'']),
               Table_written (database_uri cfg) ''medals'',
               Context_popped,
               Blueprint_registered (bp_name (main_bp pkg)),
               Blueprint_registered (bp_name (auth_bp pkg))]
      \<and> login_view (login_manager (snd (create_app pkg cfg w))) = Some ''auth.login''
      \<and> app_ctx (snd (create_app pkg cfg w)) = app_ctx w
      \<and> (\<exists>wc wd. files wc = files w \<and> files wd = files w
             \<and> fst (add_noc_data (db wc) wc) = Inr ()
             \<and> fst (add_medals_data (db wd) wd) = Inr ())"
proof -
  let ?A1 = "from_object (Flask_new ''paralympics_app'') cfg"
  let ?w1 = "emit Config_loaded (emit Flask_created w)"
  let ?D = "Dash_new ?A1 ''/dashboard/''"
  have d1: "distinct (map fst (view_functions ?A1))"
    by (simp add: from_object_def Flask_new_def)
  from register_dashapp_result [of pkg ?A1 ?w1] d1 obtain vf where
    reg0: "register_dashapp pkg ?A1 ?w1
          = (Inr ((server ?D)\<lparr>view_functions := vf\<rparr>),
             ?w1\<lparr>trace := trace ?w1 @ [Dash_created ''/dashboard/'', Context_pushed, Dash_title_set,
                                     Dash_layout_set, Dash_callbacks_registered, Context_popped]
                   @ map View_protected
                       (filter (\<lambda>k. startswith k ''/dashboard/'')
                           (map fst (view_functions (server ?D))))\<rparr>)"
    and wrapped: "\<forall>k. map_of vf k
                 = (if startswith k ''/dashboard/''
                    then map_option Login_required (map_of (view_functions (server ?D)) k)
                    else map_of (view_functions (server ?D)) k)"
    by auto
  define A2 where "A2 = (server ?D)\<lparr>view_functions := vf\<rparr>"
  define w2 where "w2 = ?w1\<lparr>trace := trace ?w1 @ [Dash_created ''/dashboard/'', Context_pushed, Dash_title_set,
                                     Dash_layout_set, Dash_callbacks_registered, Context_popped]
                   @ map View_protected
                       (filter (\<lambda>k. startswith k ''/dashboard/'')
                           (map fst (view_functions (server ?D))))\<rparr>"
  have reg: "register_dashapp pkg ?A1 ?w1 = (Inr A2, w2)"
    unfolding A2_def w2_def by (rule reg0)
  have tr2: "trace w2 = trace w
            @ [Flask_created, Config_loaded,
               Dash_created ''/dashboard/'', Context_pushed, Dash_title_set, Dash_layout_set,
               Dash_callbacks_registered, Context_popped]
            @ map View_protected (map (\<lambda>nf. ''/dashboard/'' @ fst nf) dash_routes)"
    by (simp add: w2_def dash_protected_keys emit_def)
  have f2: "photos w2 = photos w" "app_ctx w2 = app_ctx w" "files w2 = files w"
    by (simp_all add: w2_def emit_def)
  have c2: "config A2 = config ?A1" "extensions A2 = []"
    by (simp_all add: A2_def from_object_def Flask_new_def)
  define A5 where "A5 = login_init_app (db_init_app (csrf_init_app A2))"
  define w6 where "w6 = emit Login_init (emit (Login_view_set ''auth.login'')
               ((emit Db_init (emit Csrf_init w2))
                  \<lparr>login_manager := (login_manager (emit Db_init (emit Csrf_init w2)))
                                       \<lparr>login_view := Some ''auth.login''\<rparr>\<rparr>))"
  have step1: "create_app pkg cfg w
     = (case configure_uploads A5 [photos w6] of
          Inl e \<Rightarrow> (Inl e, w6)
        | Inr app6 \<Rightarrow>
            (case with_app_context app6
                    (\<lambda>wa. (let wb = import_models pkg wa
                            in case create_all wb of
                                 (Inl e, wc) \<Rightarrow> (Inl e, wc)
                               | (Inr u, wc) \<Rightarrow>
                                   (case add_noc_data (db wc) wc of
                                      (Inl e, wd) \<Rightarrow> (Inl e, wd)
                                    | (Inr u', wd) \<Rightarrow> add_medals_data (db wd) wd)))
                    (emit Uploads_configured w6) of
               (Inl e, w7) \<Rightarrow> (Inl e, w7)
             | (Inr u, w7) \<Rightarrow>
                 (Inr (register_blueprint (register_blueprint app6 (main_bp pkg)) (auth_bp pkg)),
                  emit (Blueprint_registered (bp_name (auth_bp pkg)))
                    (emit (Blueprint_registered (bp_name (main_bp pkg))) w7))))"
    unfolding create_app_def Let_def reg A5_def w6_def by simp
  have tr6: "trace w6 = trace w2 @ [Csrf_init, Db_init, Login_view_set ''auth.login'', Login_init]"
    and f6: "photos w6 = photos w" "app_ctx w6 = app_ctx w"
            "login_view (login_manager w6) = Some ''auth.login''" "files w6 = files w"
    by (simp_all add: w6_def emit_def f2)
  obtain app6 where cu: "configure_uploads A5 [photos w6] = Inr app6"
  proof (cases "configure_uploads A5 [photos w6]")
    case (Inl e)
    with ok have False unfolding step1 by simp
    then show ?thesis ..
  next
    case (Inr a)
    then show ?thesis by (rule that)
  qed
  let ?uri = "database_uri cfg"
  have cfg6: "map_of (config app6) ''SQLALCHEMY_DATABASE_URI'' = Some ?uri"
    using db_init_app_uri [of "csrf_init_app A2"]
    by (simp add: configure_uploads_Inr(1) [OF cu] A5_def login_init_app_def csrf_init_app_def c2)
  have ext6: "''sqlalchemy'' \<in> set (extensions app6)"
    by (simp add: configure_uploads_Inr(2) [OF cu] A5_def login_init_app_def db_init_app_def)
  define wb where "wb = import_models pkg (emit Context_pushed
               ((emit Uploads_configured w6)\<lparr>app_ctx := app6 # app_ctx (emit Uploads_configured w6)\<rparr>))"
  have trb: "trace wb = trace w6 @ [Uploads_configured, Context_pushed, Models_imported]"
    and ctxb: "app_ctx wb = app6 # app_ctx w"
    and lmb: "login_manager wb = login_manager w6"
    and flb: "files wb = files w"
    by (simp_all add: wb_def import_models_def emit_def f6)
  have engb: "engine wb = Inr ?uri"
    by (rule engine_of [OF ctxb ext6 cfg6])
  from create_all_Inr [OF engb] obtain wc where
    ca: "create_all wb = (Inr (), wc)" and trc: "trace wc = trace wb @ [Schema_created]"
    by blast
  from create_all_frame [OF ca] have fc: "app_ctx wc = app_ctx wb" "login_manager wc = login_manager wb"
    "files wc = files wb"
    by simp_all
  have engc: "engine wc = Inr ?uri" using engine_cong [OF fc(1)] engb by simp
  have step2: "create_app pkg cfg w
     = (case (case add_noc_data (db wc) wc of
                (Inl e, wd) \<Rightarrow> (Inl e, wd)
              | (Inr u', wd) \<Rightarrow> add_medals_data (db wd) wd) of
          (r, w1) \<Rightarrow>
            (case (r, emit Context_popped (w1\<lparr>app_ctx := tl (app_ctx w1)\<rparr>)) of
               (Inl e, w7) \<Rightarrow> (Inl e, w7)
             | (Inr u, w7) \<Rightarrow>
                 (Inr (register_blueprint (register_blueprint app6 (main_bp pkg)) (auth_bp pkg)),
                  emit (Blueprint_registered (bp_name (auth_bp pkg)))
                    (emit (Blueprint_registered (bp_name (main_bp pkg))) w7))))"
    using ca [unfolded wb_def] unfolding step1 cu
    by (simp add: with_app_context_def Let_def split: prod.splits sum.splits)
  obtain wd where noc: "add_noc_data (db wc) wc = (Inr (), wd)"
  proof (cases "add_noc_data (db wc) wc")
    case (Pair r wd)
    show ?thesis
    proof (cases r)
      case (Inl e)
      with Pair ok have False unfolding step2 by simp
      then show ?thesis ..
    next
      case (Inr u)
      with Pair show ?thesis using that by simp
    qed
  qed
  from add_noc_data_Inr [OF noc engc] add_noc_data_frame [OF noc]
  have trd: "trace wd = trace wc @ [Csv_read (joinpath package_dir [''data'', ''noc_regions.csv'']),
                               Table_written ?uri ''region'']"
    and fd: "app_ctx wd = app_ctx wc" "login_manager wd = login_manager wc" "files wd = files wc"
    by simp_all
  have engd: "engine wd = Inr ?uri" using engine_cong [OF fd(1)] engc by simp
  obtain we where med: "add_medals_data (db wd) wd = (Inr (), we)"
  proof (cases "add_medals_data (db wd) wd")
    case (Pair r we)
    show ?thesis
    proof (cases r)
      case (Inl e)
      with Pair ok noc have False unfolding step2 by simp
      then show ?thesis ..
    next
      case (Inr u)
      with Pair show ?thesis using that by simp
    qed
  qed
  from add_medals_data_Inr [OF med engd] add_medals_data_frame [OF med]
  have tre: "trace we = trace wd @ [Csv_read (joinpath package_dir [''data'', ''all_medals.csv'']),
                               Table_written ?uri ''medals'']"
    and fe: "app_ctx we = app_ctx wd" "login_manager we = login_manager wd"
    by simp_all
  have run: "create_app pkg cfg w
      = (Inr (register_blueprint (register_blueprint app6 (main_bp pkg)) (auth_bp pkg)),
         emit (Blueprint_registered (bp_name (auth_bp pkg)))
           (emit (Blueprint_registered (bp_name (main_bp pkg)))
              (emit Context_popped (we\<lparr>app_ctx := tl (app_ctx we)\<rparr>))))"
    unfolding step2 by (simp add: noc med)
  show ?thesis
  proof (rule exI [of _ vf], rule exI [of _ app6], intro conjI)
    show "\<forall>k. map_of vf k
                 = (if startswith k ''/dashboard/''
                    then map_option Login_required (map_of (view_functions (server ?D)) k)
                    else map_of (view_functions (server ?D)) k)"
      by (rule wrapped)
    show "configure_uploads
           (login_init_app (db_init_app (csrf_init_app ((server ?D)\<lparr>view_functions := vf\<rparr>))))
           [photos w] = Inr app6"
      using cu unfolding A5_def A2_def f6 by simp
    show "app = register_blueprint (register_blueprint app6 (main_bp pkg)) (auth_bp pkg)"
      using ok unfolding run by simp
    show "trace (snd (create_app pkg cfg w))
          = trace w
            @ [Flask_created, Config_loaded,
               Dash_created ''/dashboard/'', Context_pushed, Dash_title_set, Dash_layout_set,
               Dash_callbacks_registered, Context_popped]
            @ map View_protected (map (\<lambda>nf. ''/dashboard/'' @ fst nf) dash_routes)
            @ [Csrf_init, Db_init, Login_view_set ''auth.login'', Login_init, Uploads_configured,
               Context_pushed, Models_imported, Schema_created,
               Csv_read (joinpath package_dir [''data'', ''noc_regions.csv'']),
               Table_written (database_uri cfg) ''region'',
               Csv_read (joinpath package_dir [''data'', ''all_medals.csv'']),
               Table_written (database_uri cfg) ''medals'',
               Context_popped,
               Blueprint_registered (bp_name (main_bp pkg)),
               Blueprint_registered (bp_name (auth_bp pkg))]"
      unfolding run by (simp add: emit_def tre trd trc trb tr6 tr2)
    show "login_view (login_manager (snd (create_app pkg cfg w))) = Some ''auth.login''"
      unfolding run by (simp add: emit_def fe fd fc lmb f6)
    show "app_ctx (snd (create_app pkg cfg w)) = app_ctx w"
      unfolding run by (simp add: emit_def fe fd fc ctxb)
    show "\<exists>wc wd. files wc = files w \<and> files wd = files w
             \<and> fst (add_noc_data (db wc) wc) = Inr ()
             \<and> fst (add_medals_data (db wd) wd) = Inr ()"
      by (rule exI [of _ wc], rule exI [of _ wd]) (simp add: noc med fc fd flb)
  qed
qed


lemma dispatch_registered:
  "map_of (view_functions (server (Dash_new (from_object (Flask_new n) cfg) ''/dashboard/'')))
      ''/dashboard/_dash-update-component'' = Some (View ''dash.dash'' ''dispatch'')"
  by (simp add: Dash_new_def from_object_def Flask_new_def register_blueprint_def
        assets_blueprint_def add_url_def add_url_rule_def dash_routes_def)

lemma create_app_dispatch:
  assumes "fst (create_app pkg cfg w) = Inr app"
  shows "map_of (view_functions app) ''/dashboard/_dash-update-component''
           = Some (Login_required (View ''dash.dash'' ''dispatch''))"
proof -
  let ?k = "''/dashboard/_dash-update-component''"
  let ?D = "Dash_new (from_object (Flask_new ''paralympics_app'') cfg) ''/dashboard/''"
  from create_app_Inr [OF assms] obtain vf app6 where
    wrapped: "\<forall>k. map_of vf k
            = (if startswith k ''/dashboard/''
               then map_option Login_required (map_of (view_functions (server ?D)) k)
               else map_of (view_functions (server ?D)) k)"
    and cu: "configure_uploads
           (login_init_app (db_init_app (csrf_init_app ((server ?D)\<lparr>view_functions := vf\<rparr>))))
           [photos w] = Inr app6"
    and app: "app = register_blueprint (register_blueprint app6 (main_bp pkg)) (auth_bp pkg)"
    by blast
  have nodot: "CHR ''.'' \<notin> set ?k" by simp
  have sw: "startswith ?k ''/dashboard/''" by (simp add: startswith_def)
  have "map_of (view_functions app) ?k = map_of (view_functions app6) ?k"
    unfolding app by (simp only: map_of_register_blueprint [OF nodot])
  also have "\<dots> = map_of vf ?k"
    using configure_uploads_Inr(3) [OF cu nodot]
    by (simp add: login_init_app_def db_init_app_def csrf_init_app_def)
  also have "\<dots> = Some (Login_required (View ''dash.dash'' ''dispatch''))"
    using wrapped sw by (simp add: dispatch_registered)
  finally show ?thesis .
qed


subsection \<open>The order of the steps of the factory\<close>

lemma run_of_create_app:
  assumes "fst (create_app pkg cfg w) = Inr app"
  shows "run_of pkg cfg w =
     [Flask_created, Config_loaded,
      Dash_created ''/dashboard/'', Context_pushed, Dash_title_set, Dash_layout_set,
      Dash_callbacks_registered, Context_popped]
     @ map View_protected (map (\<lambda>nf. ''/dashboard/'' @ fst nf) dash_routes)
     @ [Csrf_init, Db_init, Login_view_set ''auth.login'', Login_init, Uploads_configured,
        Context_pushed, Models_imported, Schema_created,
        Csv_read (joinpath package_dir [''data'', ''noc_regions.csv'']),
        Table_written (database_uri cfg) ''region'',
        Csv_read (joinpath package_dir [''data'', ''all_medals.csv'']),
        Table_written (database_uri cfg) ''medals'',
        Context_popped,
        Blueprint_registered (bp_name (main_bp pkg)),
        Blueprint_registered (bp_name (auth_bp pkg))]"
proof -
  from create_app_Inr [OF assms] obtain tr where
    "trace (snd (create_app pkg cfg w)) = trace w @ tr"
    and "tr = [Flask_created, Config_loaded,
      Dash_created ''/dashboard/'', Context_pushed, Dash_title_set, Dash_layout_set,
      Dash_callbacks_registered, Context_popped]
     @ map View_protected (map (\<lambda>nf. ''/dashboard/'' @ fst nf) dash_routes)
     @ [Csrf_init, Db_init, Login_view_set ''auth.login'', Login_init, Uploads_configured,
        Context_pushed, Models_imported, Schema_created,
        Csv_read (joinpath package_dir [''data'', ''noc_regions.csv'']),
        Table_written (database_uri cfg) ''region'',
        Csv_read (joinpath package_dir [''data'', ''all_medals.csv'']),
        Table_written (database_uri cfg) ''medals'',
        Context_popped,
        Blueprint_registered (bp_name (main_bp pkg)),
        Blueprint_registered (bp_name (auth_bp pkg))]"
    by blast
  then show ?thesis
    unfolding run_of_def by simp
qed

lemma example_run_succeeds:
  "\<exists>app. fst (create_app example_package example_config imported) = Inr app"
proof -
  have "\<not> isl (fst (create_app example_package example_config imported))"
    by code_simp
  then show ?thesis
    by (cases "fst (create_app example_package example_config imported)") simp_all
qed

text \<open>
  C5. In a run of \<open>create_app\<close> that returns an application, the steps are taken in the
  order of the bootstrap sequence: the application is created and configured; the
  dashboard is mounted at \<open>/dashboard/\<close> and its views are wrapped; then CSRF, the
  database binding, the login manager (with the login view \<open>auth.login\<close>) and the uploads
  are initialised; then, with an application context pushed, the models are imported,
  the tables are created, and both loaders run, each reading its file and writing its
  table; the context is popped, and only then the two blueprints are registered. The
  run adds exactly these events, it leaves the login view set to \<open>auth.login\<close>, and the
  stack of application contexts as it found it.
\<close>

theorem create_app_bootstrap_order:
  assumes "fst (create_app pkg cfg w) = Inr app"
  shows "run_of pkg cfg w =
     [Flask_created, Config_loaded,
      Dash_created ''/dashboard/'', Context_pushed, Dash_title_set, Dash_layout_set,
      Dash_callbacks_registered, Context_popped]
     @ map View_protected (map (\<lambda>nf. ''/dashboard/'' @ fst nf) dash_routes)
     @ [Csrf_init, Db_init, Login_view_set ''auth.login'', Login_init, Uploads_configured,
        Context_pushed, Models_imported, Schema_created,
        Csv_read (joinpath package_dir [''data'', ''noc_regions.csv'']),
        Table_written (database_uri cfg) ''region'',
        Csv_read (joinpath package_dir [''data'', ''all_medals.csv'']),
        Table_written (database_uri cfg) ''medals'',
        Context_popped,
        Blueprint_registered (bp_name (main_bp pkg)),
        Blueprint_registered (bp_name (auth_bp pkg))]
    \<and> login_view (login_manager (snd (create_app pkg cfg w))) = Some ''auth.login''
    \<and> app_ctx (snd (create_app pkg cfg w)) = app_ctx w"
  using run_of_create_app [OF assms] create_app_Inr [OF assms] by blast

theorem create_app_bootstrap_order_witness:
  "(\<exists>app. fst (create_app example_package example_config imported) = Inr app)
   \<and> run_of example_package example_config imported =
     [Flask_created, Config_loaded,
      Dash_created ''/dashboard/'', Context_pushed, Dash_title_set, Dash_layout_set,
      Dash_callbacks_registered, Context_popped,
      View_protected ''/dashboard/_dash-component-suites/<string:package_name>/<path:fingerprint>'',
      View_protected ''/dashboard/_dash-layout'',
      View_protected ''/dashboard/_dash-dependencies'',
      View_protected ''/dashboard/_dash-update-component'',
      View_protected ''/dashboard/_reload-hash'',
      View_protected ''/dashboard/_favicon.ico'',
      View_protected ''/dashboard/'',
      View_protected ''/dashboard/<path:path>'',
      Csrf_init, Db_init, Login_view_set ''auth.login'', Login_init, Uploads_configured,
      Context_pushed, Models_imported, Schema_created,
      Csv_read (joinpath package_dir [''data'', ''noc_regions.csv'']),
      Table_written ''sqlite:///paralympics.sqlite'' ''region'',
      Csv_read (joinpath package_dir [''data'', ''all_medals.csv'']),
      Table_written ''sqlite:///paralympics.sqlite'' ''medals'',
      Context_popped,
      Blueprint_registered ''main'',
      Blueprint_registered ''auth'']
   \<and> login_view (login_manager (snd (create_app example_package example_config imported)))
       = Some ''auth.login''
   \<and> app_ctx (snd (create_app example_package example_config imported)) = []"
proof -
  from example_run_succeeds obtain app
    where ok: "fst (create_app example_package example_config imported) = Inr app" ..
  have ctx: "app_ctx imported = []"
    by (simp add: imported_def module_import_def Let_def)
  from create_app_bootstrap_order [OF ok] ok ctx show ?thesis
    by (simp add: dash_routes_def example_package_def example_config_def database_uri_def)
qed

text \<open>
  The order of the control-flow summary (configure the services, create the schema, run
  the loader, mount the dashboard, register the blueprints) is not the order of the code:
  in the run of the example, which returns an application (not an error, \<open>isl\<close>), the
  dashboard is mounted
  before CSRF is initialised, before the tables are created and before the first file is
  read, and no event of these three is followed by the mounting of the dashboard.
\<close>

theorem dashboard_not_mounted_after_loader:
  "\<not> isl (fst (create_app example_package example_config imported))
   \<and> \<not> in_order [Csrf_init, Schema_created,
                  Csv_read (joinpath package_dir [''data'', ''noc_regions.csv'']),
                  Dash_created ''/dashboard/'',
                  Blueprint_registered ''main'']
        (run_of example_package example_config imported)
   \<and> \<not> in_order [Csrf_init, Dash_created ''/dashboard/'']
        (run_of example_package example_config imported)
   \<and> \<not> in_order [Schema_created, Dash_created ''/dashboard/'']
        (run_of example_package example_config imported)
   \<and> \<not> in_order [Csv_read (joinpath package_dir [''data'', ''noc_regions.csv'']),
                  Dash_created ''/dashboard/'']
        (run_of example_package example_config imported)
   \<and> in_order [Dash_created ''/dashboard/'', Csrf_init, Schema_created,
                Csv_read (joinpath package_dir [''data'', ''noc_regions.csv''])]
        (run_of example_package example_config imported)"
proof -
  from example_run_succeeds obtain app
    where ok: "fst (create_app example_package example_config imported) = Inr app" ..
  from run_of_create_app [OF ok] ok show ?thesis
    by (simp add: dash_routes_def)
qed

text \<open>
  C6. In every run of \<open>create_app\<close> that returns an application the order is: create and
  configure the application; mount the dashboard and wrap its views; initialise CSRF, the
  database binding, the login manager and the uploads; create the tables; run the loader
  of the regions, then the loader of the medals; register the main blueprint, then the
  auth blueprint. The dashboard is mounted first, not fourth: no initialisation of a
  service, no creation of tables and no read of a source file comes before it.
\<close>

theorem create_app_control_flow:
  assumes "fst (create_app pkg cfg w) = Inr app"
  shows "in_order
           [Flask_created, Config_loaded,
            Dash_created ''/dashboard/'', View_protected ''/dashboard/_dash-update-component'',
            Csrf_init, Db_init, Login_init, Uploads_configured,
            Schema_created,
            Csv_read (joinpath package_dir [''data'', ''noc_regions.csv'']),
            Table_written (database_uri cfg) ''region'',
            Csv_read (joinpath package_dir [''data'', ''all_medals.csv'']),
            Table_written (database_uri cfg) ''medals'',
            Blueprint_registered (bp_name (main_bp pkg)),
            Blueprint_registered (bp_name (auth_bp pkg))]
           (run_of pkg cfg w)
         \<and> \<not> in_order [Csrf_init, Dash_created ''/dashboard/''] (run_of pkg cfg w)
         \<and> \<not> in_order [Db_init, Dash_created ''/dashboard/''] (run_of pkg cfg w)
         \<and> \<not> in_order [Login_init, Dash_created ''/dashboard/''] (run_of pkg cfg w)
         \<and> \<not> in_order [Uploads_configured, Dash_created ''/dashboard/''] (run_of pkg cfg w)
         \<and> \<not> in_order [Schema_created, Dash_created ''/dashboard/''] (run_of pkg cfg w)
         \<and> \<not> in_order [Csv_read (joinpath package_dir [''data'', ''noc_regions.csv'']),
                         Dash_created ''/dashboard/''] (run_of pkg cfg w)
         \<and> \<not> in_order [Csv_read (joinpath package_dir [''data'', ''all_medals.csv'']),
                         Dash_created ''/dashboard/''] (run_of pkg cfg w)"
  unfolding run_of_create_app [OF assms] by (simp add: dash_routes_def)

theorem create_app_control_flow_witness:
  "(\<exists>app. fst (create_app example_package example_config imported) = Inr app)
   \<and> in_order
       [Flask_created, Config_loaded,
        Dash_created ''/dashboard/'', View_protected ''/dashboard/_dash-update-component'',
        Csrf_init, Db_init, Login_init, Uploads_configured,
        Schema_created,
        Csv_read (joinpath package_dir [''data'', ''noc_regions.csv'']),
        Table_written ''sqlite:///paralympics.sqlite'' ''region'',
        Csv_read (joinpath package_dir [''data'', ''all_medals.csv'']),
        Table_written ''sqlite:///paralympics.sqlite'' ''medals'',
        Blueprint_registered ''main'',
        Blueprint_registered ''auth'']
       (run_of example_package example_config imported)"
proof -
  from example_run_succeeds obtain app
    where ok: "fst (create_app example_package example_config imported) = Inr app" ..
  from create_app_control_flow [OF ok] ok show ?thesis
    by (simp add: example_package_def example_config_def database_uri_def)
qed

subsection \<open>A source file that cannot be loaded\<close>




subsection \<open>The CSRF exemption of the dispatch view\<close>

lemma reachable_csrf:
  assumes "reachable w"
  shows "''dash.dash.dispatch'' \<in> exempt_views (csrf w)"
  using assms
proof induction
  case (module_imported fs dbs)
  show ?case by (simp add: module_import_def Let_def)
next
  case (app_created w pkg cfg)
  then show ?case by (simp add: create_app_csrf)
next
  case (dashapp_registered w pkg app)
  with register_dashapp_frame [of pkg app w "fst (register_dashapp pkg app w)" "snd (register_dashapp pkg app w)"]
  show ?case by simp
next
  case (dash_views_protected w dash_app)
  with protect_dash_views_result [of dash_app w] show ?case by auto
next
  case (noc_data_added w db_name)
  with add_noc_data_frame [of db_name w "fst (add_noc_data db_name w)" "snd (add_noc_data db_name w)"]
  show ?case by simp
next
  case (medals_data_added w db_name)
  with add_medals_data_frame [of db_name w "fst (add_medals_data db_name w)" "snd (add_medals_data db_name w)"]
  show ?case by simp
next
  case (environment w fs dbs)
  then show ?case by simp
qed

text \<open>
  C10. The qualified name \<open>dash.dash.dispatch\<close> is put in the set of exempt views when the
  module is imported, and no operation of the module removes it: it is in the set in
  every state the process reaches. So in every application \<open>create_app\<close> builds from such
  a state, the view of the dashboard's dispatch endpoint, which the factory wraps with
  the login check, is exempt from CSRF validation.
\<close>

theorem dispatch_exempt_invariant:
  assumes "reachable w"
  shows "''dash.dash.dispatch'' \<in> exempt_views (csrf w)
         \<and> ''dash.dash.dispatch'' \<in> exempt_views (csrf (snd (create_app pkg cfg w)))
         \<and> (\<forall>app. fst (create_app pkg cfg w) = Inr app \<longrightarrow>
               (\<exists>f. map_of (view_functions app) ''/dashboard/_dash-update-component'' = Some f
                    \<and> qualified_name f = ''dash.dash.dispatch''
                    \<and> csrf_exempt (csrf (snd (create_app pkg cfg w))) f))"
proof (intro conjI allI impI)
  from assms show a: "''dash.dash.dispatch'' \<in> exempt_views (csrf w)"
    by (rule reachable_csrf)
  then show b: "''dash.dash.dispatch'' \<in> exempt_views (csrf (snd (create_app pkg cfg w)))"
    by (simp add: create_app_csrf)
  fix app assume "fst (create_app pkg cfg w) = Inr app"
  from create_app_dispatch [OF this] b
  show "\<exists>f. map_of (view_functions app) ''/dashboard/_dash-update-component'' = Some f
            \<and> qualified_name f = ''dash.dash.dispatch''
            \<and> csrf_exempt (csrf (snd (create_app pkg cfg w))) f"
    by (simp add: csrf_exempt_def)
qed

theorem dispatch_exempt_invariant_witness:
  "reachable (snd (create_app example_package example_config imported))
   \<and> ''dash.dash.dispatch''
       \<in> exempt_views (csrf (snd (create_app example_package example_config imported)))
   \<and> (\<exists>app f. fst (create_app example_package example_config
                       (snd (create_app example_package example_config imported))) = Inr app
        \<and> map_of (view_functions app) ''/dashboard/_dash-update-component'' = Some f
        \<and> qualified_name f = ''dash.dash.dispatch''
        \<and> csrf_exempt (csrf (snd (create_app example_package example_config
                       (snd (create_app example_package example_config imported))))) f)"
proof -
  let ?w = "snd (create_app example_package example_config imported)"
  have r: "reachable ?w"
    unfolding imported_def by (intro reachable.intros)
  have "\<not> isl (fst (create_app example_package example_config ?w))"
    by code_simp
  then obtain app where ok: "fst (create_app example_package example_config ?w) = Inr app"
    by (cases "fst (create_app example_package example_config ?w)") simp_all
  from dispatch_exempt_invariant [OF r, of example_package example_config] ok r
  show ?thesis by blast
qed

end
